theory Spec2Isabelle
  imports Complex_Main "HOL-Library.Word" "HOL-Library.AList"
begin

section \<open>The record model of \<open>include/Database.h\<close>\<close>

text \<open>
  \<open>db::Field\<close> is \<open>std::variant<int, double, std::string>\<close>. The \<open>int\<close> alternative is
  a 32-bit machine integer. The program never computes with a \<open>double\<close>, it only moves
  it between a record and a statement, so a double is modelled by the real number it
  denotes. A \<open>std::string\<close> is a list of bytes.
\<close>

datatype Field = FieldInt "32 word" | FieldDouble real | FieldString string

text \<open>The three \<open>std::holds_alternative\<close> tests of the binding loops.\<close>

fun holds_int :: "Field \<Rightarrow> bool" where
  "holds_int (FieldInt _) = True"
| "holds_int _ = False"

fun holds_double :: "Field \<Rightarrow> bool" where
  "holds_double (FieldDouble _) = True"
| "holds_double _ = False"

fun holds_string :: "Field \<Rightarrow> bool" where
  "holds_string (FieldString _) = True"
| "holds_string _ = False"

fun get_int :: "Field \<Rightarrow> 32 word" where
  "get_int (FieldInt i) = i"
| "get_int _ = 0"

fun get_double :: "Field \<Rightarrow> real" where
  "get_double (FieldDouble d) = d"
| "get_double _ = 0"

fun get_string :: "Field \<Rightarrow> string" where
  "get_string (FieldString s) = s"
| "get_string _ = []"

text \<open>
  \<open>db::RecordData\<close> is \<open>std::unordered_map<std::string, Field>\<close>. It is modelled by an
  association list with distinct keys; the order of the list is the order in which the
  container is iterated, which is unspecified but the same for every traversal of an
  unmodified container. \<open>data[key] = value\<close> is \<open>AList.update\<close>.
\<close>

type_synonym RecordData = "(string \<times> Field) list"

record Record =
  data :: RecordData
  table :: string

record Column =
  name :: string
  type :: string
  primaryKey :: bool
  autoIncrement :: bool
  notNull :: bool
  unique :: bool
  defaultVal :: "string option"
  foreignKey :: "string option"

text \<open>
  The exceptions thrown by \<open>src/Database.cpp\<close>. \<open>invalid_argument\<close> is
  \<open>std::invalid_argument\<close>; every other one is a \<open>std::runtime_error\<close>, told apart by
  its message.
\<close>

datatype error =
    invalid_argument
  | prepare_failed
  | bind_failed
  | execute_failed
  | unsupported_field string
  | unsupported_column string
  | record_not_found

section \<open>A model of the SQLite interface the program calls\<close>

text \<open>
  The program hands every statement to SQLite as a text and reads its rows back through
  \<open>sqlite3_prepare_v2\<close>, the \<open>sqlite3_bind\<close> functions, \<open>sqlite3_step\<close> and the
  \<open>sqlite3_column\<close> functions. The model follows the documented behaviour of these
  functions on the statements that the program writes: a text is read into tokens and
  parsed, a statement is checked against the tables when it is prepared, and a step
  executes it on the database. Three things are outside the model: texts beyond the
  fragment of SQL described below, which the model refuses to prepare; what an \<open>INSERT\<close>
  stores in a table with constraints or default values and the conversion of a value on
  behalf of the type of a column, which are left unspecified; and failures of the storage
  underneath the database. A stored integer is an \<open>int\<close> of HOL, meant in the range of 64
  bits.
\<close>

subsection \<open>Stored values and result codes\<close>

datatype sql_value =
    SqlInteger int
  | SqlFloat real
  | SqlText string
  | SqlBlob string
  | SqlNull

datatype column_type = SQLITE_INTEGER | SQLITE_FLOAT | SQLITE_TEXT | SQLITE_BLOB | SQLITE_NULL

datatype result_code = SQLITE_OK | SQLITE_ERROR | SQLITE_RANGE | SQLITE_ROW | SQLITE_DONE

text \<open>
  A \<open>const char *\<close> passed with length \<open>-1\<close>, or turned into a \<open>std::string\<close>, ends at
  its first zero byte.
\<close>

definition c_str :: "string \<Rightarrow> string" where
  "c_str s = takeWhile (\<lambda>c. c \<noteq> CHR 0x00) s"

subsection \<open>Tokens\<close>

text \<open>
  The model reads the fragment of SQL that the program can write with plain names:
  words (letters, digits and underscores, not starting with a digit), the punctuation
  \<open>( ) , = ? * ;\<close> and white space. A text with any other character is outside the
  fragment and is reported as a preparation error.
\<close>

datatype token = Word string | LP | RP | COMMA | EQ | QMARK | STAR | SEMI

definition upper_letters :: string where
  "upper_letters = ''ABCDEFGHIJKLMNOPQRSTUVWXYZ''"

definition lower_letters :: string where
  "lower_letters = ''abcdefghijklmnopqrstuvwxyz''"

definition is_letter :: "char \<Rightarrow> bool" where
  "is_letter c \<longleftrightarrow> c \<in> set upper_letters \<or> c \<in> set lower_letters \<or> c = CHR ''_''"

definition is_digit :: "char \<Rightarrow> bool" where
  "is_digit c \<longleftrightarrow> c \<in> set ''0123456789''"

definition is_space :: "char \<Rightarrow> bool" where
  "is_space c \<longleftrightarrow> c = CHR '' '' \<or> c = CHR 0x0A \<or> c = CHR 0x09 \<or> c = CHR 0x0D \<or> c = CHR 0x0C"

definition symbol_of :: "char \<Rightarrow> token option" where
  "symbol_of c =
     (if c = CHR ''('' then Some LP
      else if c = CHR '')'' then Some RP
      else if c = CHR '','' then Some COMMA
      else if c = CHR ''='' then Some EQ
      else if c = CHR ''?'' then Some QMARK
      else if c = CHR ''*'' then Some STAR
      else if c = CHR '';'' then Some SEMI
      else None)"

definition flush :: "string \<Rightarrow> token list \<Rightarrow> token list" where
  "flush w ts = (if w = [] then ts else Word w # ts)"

text \<open>\<open>lex_from w s\<close> reads \<open>s\<close> with \<open>w\<close> the word read so far.\<close>

fun lex_from :: "string \<Rightarrow> string \<Rightarrow> token list option" where
  "lex_from w [] = Some (flush w [])"
| "lex_from w (c # cs) =
     (if is_letter c then lex_from (w @ [c]) cs
      else if is_digit c then (if w = [] then None else lex_from (w @ [c]) cs)
      else if is_space c then map_option (flush w) (lex_from [] cs)
      else (case symbol_of c of
              Some t \<Rightarrow> map_option (\<lambda>ts. flush w (t # ts)) (lex_from [] cs)
            | None \<Rightarrow> None))"

definition lex :: "string \<Rightarrow> token list option" where
  "lex s = lex_from [] s"

text \<open>Names and keywords are compared without regard to the case of ASCII letters.\<close>

definition char_upper :: "char \<Rightarrow> char" where
  "char_upper c = (case map_of (zip lower_letters upper_letters) c of Some u \<Rightarrow> u | None \<Rightarrow> c)"

definition sql_upper :: "string \<Rightarrow> string" where
  "sql_upper s = map char_upper s"

definition kw :: "string \<Rightarrow> string \<Rightarrow> bool" where
  "kw k w \<longleftrightarrow> sql_upper w = k"

definition same_name :: "string \<Rightarrow> string \<Rightarrow> bool" where
  "same_name a b \<longleftrightarrow> sql_upper a = sql_upper b"

text \<open>
  The keywords of SQLite, and the names with a built-in meaning. The model accepts none
  of them as the name of a table or column.
\<close>

definition sqlite_reserved :: "string list" where
  "sqlite_reserved =
     [''ABORT'', ''ACTION'', ''ADD'', ''AFTER'', ''ALL'', ''ALTER'', ''ALWAYS'', ''ANALYZE'',
      ''AND'', ''AS'', ''ASC'', ''ATTACH'', ''AUTOINCREMENT'', ''BEFORE'', ''BEGIN'',
      ''BETWEEN'', ''BY'', ''CASCADE'', ''CASE'', ''CAST'', ''CHECK'', ''COLLATE'', ''COLUMN'',
      ''COMMIT'', ''CONFLICT'', ''CONSTRAINT'', ''CREATE'', ''CROSS'', ''CURRENT'',
      ''CURRENT_DATE'', ''CURRENT_TIME'', ''CURRENT_TIMESTAMP'', ''DATABASE'', ''DEFAULT'',
      ''DEFERRABLE'', ''DEFERRED'', ''DELETE'', ''DESC'', ''DETACH'', ''DISTINCT'', ''DO'',
      ''DROP'', ''EACH'', ''ELSE'', ''END'', ''ESCAPE'', ''EXCEPT'', ''EXCLUDE'', ''EXCLUSIVE'',
      ''EXISTS'', ''EXPLAIN'', ''FAIL'', ''FILTER'', ''FIRST'', ''FOLLOWING'', ''FOR'',
      ''FOREIGN'', ''FROM'', ''FULL'', ''GENERATED'', ''GLOB'', ''GROUP'', ''GROUPS'',
      ''HAVING'', ''IF'', ''IGNORE'', ''IMMEDIATE'', ''IN'', ''INDEX'', ''INDEXED'',
      ''INITIALLY'', ''INNER'', ''INSERT'', ''INSTEAD'', ''INTERSECT'', ''INTO'', ''IS'',
      ''ISNULL'', ''JOIN'', ''KEY'', ''LAST'', ''LEFT'', ''LIKE'', ''LIMIT'', ''MATCH'',
      ''MATERIALIZED'', ''NATURAL'', ''NO'', ''NOT'', ''NOTHING'', ''NOTNULL'', ''NULL'',
      ''NULLS'', ''OF'', ''OFFSET'', ''ON'', ''OR'', ''ORDER'', ''OTHERS'', ''OUTER'', ''OVER'',
      ''PARTITION'', ''PLAN'', ''PRAGMA'', ''PRECEDING'', ''PRIMARY'', ''QUERY'', ''RAISE'',
      ''RANGE'', ''RECURSIVE'', ''REFERENCES'', ''REGEXP'', ''REINDEX'', ''RELEASE'',
      ''RENAME'', ''REPLACE'', ''RESTRICT'', ''RETURNING'', ''RIGHT'', ''ROLLBACK'', ''ROW'',
      ''ROWS'', ''SAVEPOINT'', ''SELECT'', ''SET'', ''TABLE'', ''TEMP'', ''TEMPORARY'', ''THEN'',
      ''TIES'', ''TO'', ''TRANSACTION'', ''TRIGGER'', ''UNBOUNDED'', ''UNION'', ''UNIQUE'',
      ''UPDATE'', ''USING'', ''VACUUM'', ''VALUES'', ''VIEW'', ''VIRTUAL'', ''WHEN'', ''WHERE'',
      ''WINDOW'', ''WITH'', ''WITHOUT'',
      ''TRUE'', ''FALSE'', ''ROWID'', ''OID'', ''_ROWID_'']"

definition is_ident :: "string \<Rightarrow> bool" where
  "is_ident w \<longleftrightarrow> w \<noteq> [] \<and> sql_upper w \<notin> set sqlite_reserved"

text \<open>
  A plain name: what the lexer reads as one word and the parser accepts as the name of
  a table or column.
\<close>

definition sql_name :: "string \<Rightarrow> bool" where
  "sql_name s \<longleftrightarrow>
     (case s of [] \<Rightarrow> False
      | c # cs \<Rightarrow> is_letter c \<and> list_all (\<lambda>d. is_letter d \<or> is_digit d) cs) \<and> is_ident s"

subsection \<open>Statements\<close>

text \<open>
  The statements of the fragment. A \<open>WHERE\<close> clause is absent, a conjunction of
  \<open>column = ?\<close> tests, or the test of \<open>removeRecordByPseudoId\<close> and
  \<open>getRecordByPseudoId\<close>: \<open>id\<close> equals the \<open>id\<close> that has the bound rank when the rows of a
  table are numbered in ascending order of \<open>id\<close>.
\<close>

record sql_column =
  col_name :: string
  col_type :: "string list"
  col_pk :: nat
  col_autoinc :: bool
  col_notnull :: bool
  col_unique :: bool
  col_default :: "string option"
  col_references :: "string option"

datatype where_clause = NoWhere | Conds "string list" | IdOfRank string

datatype statement =
    Create bool string "sql_column list"
  | Insert string "string list" nat
  | Delete string where_clause
  | Select string where_clause

subsection \<open>Parsing\<close>

fun is_kw :: "string \<Rightarrow> token \<Rightarrow> bool" where
  "is_kw k (Word w) = kw k w"
| "is_kw k _ = False"

fun name_of :: "token \<Rightarrow> string option" where
  "name_of (Word w) = (if is_ident w then Some w else None)"
| "name_of _ = None"

fun parse_names :: "token list \<Rightarrow> string list option" where
  "parse_names [] = None"
| "parse_names (t # ts) =
     (case name_of t of
        None \<Rightarrow> None
      | Some c \<Rightarrow>
         (case ts of
            [] \<Rightarrow> Some [c]
          | s # rst \<Rightarrow> if s = COMMA then map_option (Cons c) (parse_names rst) else None))"

fun parse_qmarks :: "token list \<Rightarrow> nat option" where
  "parse_qmarks [] = None"
| "parse_qmarks (t # ts) =
     (if t = QMARK then
        (case ts of
           [] \<Rightarrow> Some 1
         | s # rst \<Rightarrow> if s = COMMA then map_option Suc (parse_qmarks rst) else None)
      else None)"

fun parse_conds :: "token list \<Rightarrow> string list option" where
  "parse_conds [] = None"
| "parse_conds (t # ts) =
     (case name_of t of
        None \<Rightarrow> None
      | Some c \<Rightarrow>
         (case ts of
            e # q # rest \<Rightarrow>
              if e = EQ \<and> q = QMARK then
                (case rest of
                   [] \<Rightarrow> Some [c]
                 | a # rst \<Rightarrow>
                     if is_kw ''AND'' a then map_option (Cons c) (parse_conds rst) else None)
              else None
          | _ \<Rightarrow> None))"

text \<open>
  The sub-query of the two pseudo-ID statements, as tokens, before and after the name of
  the table it numbers.
\<close>

definition rank_prefix :: "token list" where
  "rank_prefix =
     [Word ''ID'', EQ, LP, Word ''WITH'', Word ''PSEUDOIDS'', Word ''AS'', LP,
      Word ''SELECT'', Word ''ROW_NUMBER'', LP, RP, Word ''OVER'', LP, Word ''ORDER'',
      Word ''BY'', Word ''ID'', RP, Word ''AS'', Word ''PSEUDO_ID'', COMMA, Word ''ID'',
      Word ''FROM'']"

definition rank_suffix :: "token list" where
  "rank_suffix =
     [RP, Word ''SELECT'', Word ''ID'', Word ''FROM'', Word ''PSEUDOIDS'', Word ''WHERE'',
      Word ''PSEUDO_ID'', EQ, QMARK, RP]"

fun token_upper :: "token \<Rightarrow> token" where
  "token_upper (Word w) = Word (sql_upper w)"
| "token_upper t = t"

definition parse_rank :: "token list \<Rightarrow> string option" where
  "parse_rank ts =
     (if length ts = 33 \<and> map token_upper (take 22 ts) = rank_prefix
         \<and> map token_upper (drop 23 ts) = rank_suffix
      then name_of (ts ! 22)
      else None)"

definition parse_where :: "token list \<Rightarrow> where_clause option" where
  "parse_where ts =
     (case ts of
        [] \<Rightarrow> Some NoWhere
      | a # cs \<Rightarrow>
          if is_kw ''WHERE'' a
          then (case parse_rank cs of
                  Some t \<Rightarrow> Some (IdOfRank t)
                | None \<Rightarrow> map_option Conds (parse_conds cs))
          else None)"

text \<open>
  A column definition: a name, the words of its type, then constraints in any order.
  \<open>AUTOINCREMENT\<close> is accepted only directly after \<open>PRIMARY KEY\<close>. \<open>col_pk\<close> counts the
  \<open>PRIMARY KEY\<close> constraints of the column; the other constraints may be repeated.
\<close>

fun default_token :: "token \<Rightarrow> string option" where
  "default_token (Word w) =
     (if is_ident w \<or> sql_upper w \<in> set [''NULL'', ''TRUE'', ''FALSE'', ''CURRENT_TIME'',
                                         ''CURRENT_DATE'', ''CURRENT_TIMESTAMP'']
      then Some w else None)"
| "default_token _ = None"

fun parse_constraints :: "sql_column \<Rightarrow> token list \<Rightarrow> sql_column option" where
  "parse_constraints c [] = Some c"
| "parse_constraints c (a # ts) =
     (if is_kw ''UNIQUE'' a then parse_constraints (c\<lparr>col_unique := True\<rparr>) ts
      else
        (case ts of
           [] \<Rightarrow> None
         | b # ts' \<Rightarrow>
             if is_kw ''PRIMARY'' a \<and> is_kw ''KEY'' b then
               (case ts' of
                  [] \<Rightarrow> Some (c\<lparr>col_pk := Suc (col_pk c)\<rparr>)
                | d # ts'' \<Rightarrow>
                    if is_kw ''AUTOINCREMENT'' d
                    then parse_constraints (c\<lparr>col_pk := Suc (col_pk c), col_autoinc := True\<rparr>) ts''
                    else parse_constraints (c\<lparr>col_pk := Suc (col_pk c)\<rparr>) ts')
             else if is_kw ''NOT'' a \<and> is_kw ''NULL'' b
               then parse_constraints (c\<lparr>col_notnull := True\<rparr>) ts'
             else if is_kw ''DEFAULT'' a \<and> default_token b \<noteq> None
               then parse_constraints (c\<lparr>col_default := default_token b\<rparr>) ts'
             else if is_kw ''REFERENCES'' a \<and> name_of b \<noteq> None
               then parse_constraints (c\<lparr>col_references := name_of b\<rparr>) ts'
             else None))"

definition type_word :: "token \<Rightarrow> bool" where
  "type_word t \<longleftrightarrow> name_of t \<noteq> None"

definition parse_coldef :: "token list \<Rightarrow> sql_column option" where
  "parse_coldef ts =
     (case ts of
        [] \<Rightarrow> None
      | t # rest \<Rightarrow>
         (case name_of t of
            None \<Rightarrow> None
          | Some n \<Rightarrow>
              parse_constraints
                \<lparr>col_name = n, col_type = map (the \<circ> name_of) (takeWhile type_word rest),
                 col_pk = 0, col_autoinc = False, col_notnull = False, col_unique = False,
                 col_default = None, col_references = None\<rparr>
                (dropWhile type_word rest)))"

fun split_commas :: "token list \<Rightarrow> token list list" where
  "split_commas [] = [ [] ]"
| "split_commas (t # ts) =
     (case split_commas ts of
        [] \<Rightarrow> [ [t] ]
      | g # gs \<Rightarrow> if t = COMMA then [] # g # gs else (t # g) # gs)"

definition parse_coldefs :: "token list \<Rightarrow> sql_column list option" where
  "parse_coldefs ts = those (map parse_coldef (split_commas ts))"

definition parse_table_body :: "bool \<Rightarrow> token list \<Rightarrow> statement option" where
  "parse_table_body ine ts =
     (case ts of
        t # l # body \<Rightarrow>
         (case name_of t of
            None \<Rightarrow> None
          | Some n \<Rightarrow>
              if l = LP \<and> body \<noteq> [] \<and> last body = RP
              then map_option (Create ine n) (parse_coldefs (butlast body))
              else None)
      | _ \<Rightarrow> None)"

definition parse_create :: "token list \<Rightarrow> statement option" where
  "parse_create ts =
     (case ts of
        [] \<Rightarrow> None
      | a # rest \<Rightarrow>
          if is_kw ''TABLE'' a then
            (case rest of
               b # c # d # body \<Rightarrow>
                 if is_kw ''IF'' b \<and> is_kw ''NOT'' c \<and> is_kw ''EXISTS'' d
                 then parse_table_body True body
                 else parse_table_body False rest
             | _ \<Rightarrow> parse_table_body False rest)
          else None)"

definition parse_insert :: "token list \<Rightarrow> statement option" where
  "parse_insert ts =
     (case ts of
        a # t # l # rest \<Rightarrow>
          if is_kw ''INTO'' a \<and> l = LP then
            (case (name_of t, dropWhile (\<lambda>x. x \<noteq> RP) rest) of
               (Some n, r # v # l' # vs) \<Rightarrow>
                 if is_kw ''VALUES'' v \<and> l' = LP \<and> vs \<noteq> [] \<and> last vs = RP then
                   (case (parse_names (takeWhile (\<lambda>x. x \<noteq> RP) rest), parse_qmarks (butlast vs)) of
                      (Some cols, Some k) \<Rightarrow> Some (Insert n cols k)
                    | _ \<Rightarrow> None)
                 else None
             | _ \<Rightarrow> None)
          else None
      | _ \<Rightarrow> None)"

definition parse_delete :: "token list \<Rightarrow> statement option" where
  "parse_delete ts =
     (case ts of
        a # t # rest \<Rightarrow>
          (case name_of t of
             None \<Rightarrow> None
           | Some n \<Rightarrow> if is_kw ''FROM'' a then map_option (Delete n) (parse_where rest) else None)
      | _ \<Rightarrow> None)"

definition parse_select :: "token list \<Rightarrow> statement option" where
  "parse_select ts =
     (case ts of
        s # a # t # rest \<Rightarrow>
          (case name_of t of
             None \<Rightarrow> None
           | Some n \<Rightarrow>
               if s = STAR \<and> is_kw ''FROM'' a then map_option (Select n) (parse_where rest)
               else None)
      | _ \<Rightarrow> None)"

definition parse_statement :: "token list \<Rightarrow> statement option" where
  "parse_statement ts =
     (case ts of
        [] \<Rightarrow> None
      | a # rest \<Rightarrow>
          if is_kw ''CREATE'' a then parse_create rest
          else if is_kw ''INSERT'' a then parse_insert rest
          else if is_kw ''DELETE'' a then parse_delete rest
          else if is_kw ''SELECT'' a then parse_select rest
          else None)"

text \<open>
  Only the first statement of a text is compiled: it ends at the first semicolon, and
  what follows is not looked at.
\<close>

definition parse_sql :: "string \<Rightarrow> statement option" where
  "parse_sql text =
     (case lex text of
        None \<Rightarrow> None
      | Some ts \<Rightarrow> parse_statement (takeWhile (\<lambda>t. t \<noteq> SEMI) ts))"

subsection \<open>The database\<close>

text \<open>
  A table has a name, its columns, and its rows in the order in which a scan of the
  table visits them; a row holds one value for each column. For a table whose key is an
  \<open>INTEGER PRIMARY KEY\<close> column that order is the ascending order of the key. The
  database \<open>db\<close> that a \<open>Database\<close> object owns is the list of its tables. Errors of the
  file system are outside the model.
\<close>

record sql_table =
  tbl_name :: string
  tbl_columns :: "sql_column list"
  tbl_rows :: "sql_value list list"

type_synonym sqlite3 = "sql_table list"

definition find_table :: "sqlite3 \<Rightarrow> string \<Rightarrow> sql_table option" where
  "find_table db n = find (\<lambda>t. same_name (tbl_name t) n) db"

fun column_index :: "sql_column list \<Rightarrow> string \<Rightarrow> nat option" where
  "column_index [] n = None"
| "column_index (c # cs) n =
     (if same_name (col_name c) n then Some 0 else map_option Suc (column_index cs n))"

definition nth_value :: "sql_value list \<Rightarrow> nat \<Rightarrow> sql_value" where
  "nth_value row j = (if j < length row then row ! j else SqlNull)"

subsection \<open>Comparison of values\<close>

text \<open>
  \<open>sql_eq\<close> is the truth of \<open>a = b\<close> for two values as they are: numbers are compared by
  value, texts and blobs byte by byte, and \<open>NULL\<close> equals nothing. \<open>sql_le\<close> is the order
  of \<open>ORDER BY\<close>: \<open>NULL\<close>, then numbers, then texts, then blobs.
\<close>

fun sql_eq :: "sql_value \<Rightarrow> sql_value \<Rightarrow> bool" where
  "sql_eq (SqlInteger a) (SqlInteger b) \<longleftrightarrow> a = b"
| "sql_eq (SqlInteger a) (SqlFloat b) \<longleftrightarrow> of_int a = b"
| "sql_eq (SqlFloat a) (SqlInteger b) \<longleftrightarrow> a = of_int b"
| "sql_eq (SqlFloat a) (SqlFloat b) \<longleftrightarrow> a = b"
| "sql_eq (SqlText a) (SqlText b) \<longleftrightarrow> a = b"
| "sql_eq (SqlBlob a) (SqlBlob b) \<longleftrightarrow> a = b"
| "sql_eq _ _ \<longleftrightarrow> False"

text \<open>
  Before a column is compared with a parameter, SQLite converts the parameter on behalf
  of the affinity of the column, which follows from its declared type: a text is
  converted for a column of numeric affinity, a number for a column of text affinity,
  and nothing else is. What the conversion gives (a text that looks like a number
  becomes that number, a number becomes its decimal text) is left unspecified.
\<close>

datatype affinity = AffInteger | AffText | AffBlob | AffReal | AffNumeric

fun contains :: "string \<Rightarrow> string \<Rightarrow> bool" where
  "contains p [] \<longleftrightarrow> p = []"
| "contains p (c # cs) \<longleftrightarrow> take (length p) (c # cs) = p \<or> contains p cs"

definition column_affinity :: "string list \<Rightarrow> affinity" where
  "column_affinity ws =
     (if list_ex (contains ''INT'') (map sql_upper ws) then AffInteger
      else if list_ex (\<lambda>w. contains ''CHAR'' w \<or> contains ''CLOB'' w \<or> contains ''TEXT'' w)
                (map sql_upper ws) then AffText
      else if ws = [] \<or> list_ex (contains ''BLOB'') (map sql_upper ws) then AffBlob
      else if list_ex (\<lambda>w. contains ''REAL'' w \<or> contains ''FLOA'' w \<or> contains ''DOUB'' w)
                (map sql_upper ws) then AffReal
      else AffNumeric)"

definition converted :: "affinity \<Rightarrow> sql_value \<Rightarrow> sql_value" where
  "converted = undefined"

fun operand_for :: "affinity \<Rightarrow> sql_value \<Rightarrow> sql_value" where
  "operand_for AffBlob v = v"
| "operand_for AffText (SqlInteger n) = converted AffText (SqlInteger n)"
| "operand_for AffText (SqlFloat d) = converted AffText (SqlFloat d)"
| "operand_for AffText v = v"
| "operand_for a (SqlText s) = converted a (SqlText s)"
| "operand_for a v = v"

definition column_equals :: "sql_column \<Rightarrow> sql_value \<Rightarrow> sql_value \<Rightarrow> bool" where
  "column_equals c v p \<longleftrightarrow> sql_eq v (operand_for (column_affinity (col_type c)) p)"

fun storage_class :: "sql_value \<Rightarrow> nat" where
  "storage_class SqlNull = 0"
| "storage_class (SqlInteger _) = 1"
| "storage_class (SqlFloat _) = 1"
| "storage_class (SqlText _) = 2"
| "storage_class (SqlBlob _) = 3"

fun numeric :: "sql_value \<Rightarrow> real" where
  "numeric (SqlInteger i) = of_int i"
| "numeric (SqlFloat r) = r"
| "numeric _ = 0"

fun bytes_of :: "sql_value \<Rightarrow> string" where
  "bytes_of (SqlText s) = s"
| "bytes_of (SqlBlob s) = s"
| "bytes_of _ = []"

fun bytes_le :: "string \<Rightarrow> string \<Rightarrow> bool" where
  "bytes_le [] ys \<longleftrightarrow> True"
| "bytes_le (x # xs) [] \<longleftrightarrow> False"
| "bytes_le (x # xs) (y # ys) \<longleftrightarrow>
     (of_char x :: nat) < of_char y \<or> (x = y \<and> bytes_le xs ys)"

definition sql_le :: "sql_value \<Rightarrow> sql_value \<Rightarrow> bool" where
  "sql_le a b \<longleftrightarrow>
     (if storage_class a \<noteq> storage_class b then storage_class a < storage_class b
      else if storage_class a = 1 then numeric a \<le> numeric b
      else bytes_le (bytes_of a) (bytes_of b))"

fun insert_value :: "sql_value \<Rightarrow> sql_value list \<Rightarrow> sql_value list" where
  "insert_value x [] = [x]"
| "insert_value x (y # ys) = (if sql_le x y then x # y # ys else y # insert_value x ys)"

definition sort_values :: "sql_value list \<Rightarrow> sql_value list" where
  "sort_values xs = foldr insert_value xs []"

subsection \<open>Prepared statements\<close>

record sqlite3_stmt =
  stmt_sql :: statement
  stmt_params :: "sql_value list"
  stmt_columns :: "string list"
  stmt_row :: "sql_value list option"
  stmt_pending :: "sql_value list list option"

fun where_params :: "where_clause \<Rightarrow> nat" where
  "where_params NoWhere = 0"
| "where_params (Conds cs) = length cs"
| "where_params (IdOfRank t) = 1"

fun param_count :: "statement \<Rightarrow> nat" where
  "param_count (Create ine n cols) = 0"
| "param_count (Insert t cols k) = k"
| "param_count (Delete t w) = where_params w"
| "param_count (Select t w) = where_params w"

definition has_column :: "sql_table \<Rightarrow> string \<Rightarrow> bool" where
  "has_column tb c \<longleftrightarrow> column_index (tbl_columns tb) c \<noteq> None"

text \<open>
  The name \<open>PseudoIDs\<close> inside the sub-query is the sub-query itself, so a table of that
  name cannot be numbered: SQLite reports a circular reference.
\<close>

fun where_ok :: "sqlite3 \<Rightarrow> sql_table \<Rightarrow> where_clause \<Rightarrow> bool" where
  "where_ok db tb NoWhere \<longleftrightarrow> True"
| "where_ok db tb (Conds cs) \<longleftrightarrow> list_all (has_column tb) cs"
| "where_ok db tb (IdOfRank t) \<longleftrightarrow>
     has_column tb ''id'' \<and> \<not> same_name t ''PseudoIDs'' \<and>
     (case find_table db t of None \<Rightarrow> False | Some tb' \<Rightarrow> has_column tb' ''id'')"

text \<open>
  A new table has columns of different names and at most one \<open>PRIMARY KEY\<close> constraint,
  and \<open>AUTOINCREMENT\<close> only on a column of the type \<open>INTEGER\<close>.
\<close>

definition columns_ok :: "sql_column list \<Rightarrow> bool" where
  "columns_ok cols \<longleftrightarrow>
     distinct (map (sql_upper \<circ> col_name) cols) \<and> sum_list (map col_pk cols) \<le> 1 \<and>
     list_all (\<lambda>c. col_autoinc c \<longrightarrow> map sql_upper (col_type c) = [''INTEGER'']) cols"

text \<open>Names that start with \<open>sqlite_\<close> are reserved, also for a table that exists.\<close>

definition object_name_ok :: "string \<Rightarrow> bool" where
  "object_name_ok n \<longleftrightarrow> take 7 (sql_upper n) \<noteq> ''SQLITE_''"

fun statement_ok :: "sqlite3 \<Rightarrow> statement \<Rightarrow> bool" where
  "statement_ok db (Create ine n cols) \<longleftrightarrow>
     object_name_ok n \<and> (case find_table db n of Some tb \<Rightarrow> ine | None \<Rightarrow> columns_ok cols)"
| "statement_ok db (Insert t cols k) \<longleftrightarrow>
     (case find_table db t of
        None \<Rightarrow> False
      | Some tb \<Rightarrow> list_all (has_column tb) cols \<and> k = length cols)"
| "statement_ok db (Delete t w) \<longleftrightarrow>
     (case find_table db t of None \<Rightarrow> False | Some tb \<Rightarrow> where_ok db tb w)"
| "statement_ok db (Select t w) \<longleftrightarrow>
     (case find_table db t of None \<Rightarrow> False | Some tb \<Rightarrow> where_ok db tb w)"

fun result_columns :: "sqlite3 \<Rightarrow> statement \<Rightarrow> string list" where
  "result_columns db (Select t w) =
     (case find_table db t of None \<Rightarrow> [] | Some tb \<Rightarrow> map col_name (tbl_columns tb))"
| "result_columns db _ = []"

text \<open>
  \<open>sqlite3_prepare_v2\<close> gives the statement when it returns \<open>SQLITE_OK\<close>, and \<open>None\<close> when
  it returns any other code. Every parameter of a new statement is \<open>NULL\<close>.
\<close>

definition sqlite3_prepare_v2 :: "sqlite3 \<Rightarrow> string \<Rightarrow> sqlite3_stmt option" where
  "sqlite3_prepare_v2 db text =
     (case parse_sql text of
        None \<Rightarrow> None
      | Some s \<Rightarrow>
          if statement_ok db s
          then Some \<lparr>stmt_sql = s, stmt_params = replicate (param_count s) SqlNull,
                     stmt_columns = result_columns db s, stmt_row = None, stmt_pending = None\<rparr>
          else None)"

definition sqlite3_bind :: "sqlite3_stmt \<Rightarrow> int \<Rightarrow> sql_value \<Rightarrow> result_code \<times> sqlite3_stmt" where
  "sqlite3_bind stmt i v =
     (if 1 \<le> i \<and> i \<le> int (length (stmt_params stmt))
      then (SQLITE_OK, stmt\<lparr>stmt_params := (stmt_params stmt)[nat (i - 1) := v]\<rparr>)
      else (SQLITE_RANGE, stmt))"

definition sqlite3_bind_int :: "sqlite3_stmt \<Rightarrow> int \<Rightarrow> 32 word \<Rightarrow> result_code \<times> sqlite3_stmt" where
  "sqlite3_bind_int stmt i x = sqlite3_bind stmt i (SqlInteger (sint x))"

definition sqlite3_bind_double :: "sqlite3_stmt \<Rightarrow> int \<Rightarrow> real \<Rightarrow> result_code \<times> sqlite3_stmt" where
  "sqlite3_bind_double stmt i d = sqlite3_bind stmt i (SqlFloat d)"

definition sqlite3_bind_text :: "sqlite3_stmt \<Rightarrow> int \<Rightarrow> string \<Rightarrow> result_code \<times> sqlite3_stmt" where
  "sqlite3_bind_text stmt i s = sqlite3_bind stmt i (SqlText s)"

subsection \<open>Execution\<close>

text \<open>
  The value of the sub-query of the pseudo-ID statements: the rows of the table are
  numbered from 1 in ascending order of \<open>id\<close>, and the \<open>id\<close> of the first row whose number
  equals the parameter is the result; \<open>NULL\<close> when there is none.
\<close>

definition id_of_rank :: "sqlite3 \<Rightarrow> string \<Rightarrow> sql_value \<Rightarrow> sql_value" where
  "id_of_rank db t p =
     (case find_table db t of
        None \<Rightarrow> SqlNull
      | Some tb \<Rightarrow>
         (case column_index (tbl_columns tb) ''id'' of
            None \<Rightarrow> SqlNull
          | Some j \<Rightarrow>
             (case filter (\<lambda>(n, v). sql_eq (SqlInteger (int n)) p)
                     (zip [1..<Suc (length (tbl_rows tb))]
                          (sort_values (map (\<lambda>r. nth_value r j) (tbl_rows tb)))) of
                [] \<Rightarrow> SqlNull
              | (n, v) # _ \<Rightarrow> v)))"

fun where_holds ::
  "sqlite3 \<Rightarrow> sql_table \<Rightarrow> where_clause \<Rightarrow> sql_value list \<Rightarrow> sql_value list \<Rightarrow> bool" where
  "where_holds db tb NoWhere ps row \<longleftrightarrow> True"
| "where_holds db tb (Conds cs) ps row \<longleftrightarrow>
     list_all (\<lambda>(c, p). case column_index (tbl_columns tb) c of
                          None \<Rightarrow> False
                        | Some j \<Rightarrow> column_equals (tbl_columns tb ! j) (nth_value row j) p)
       (zip cs ps)"
| "where_holds db tb (IdOfRank t) ps row \<longleftrightarrow>
     (case column_index (tbl_columns tb) ''id'' of
        None \<Rightarrow> False
      | Some j \<Rightarrow> sql_eq (nth_value row j) (id_of_rank db t (nth_value ps 0)))"

fun delete_rows :: "(sql_value list \<Rightarrow> bool) \<Rightarrow> string \<Rightarrow> sqlite3 \<Rightarrow> sqlite3" where
  "delete_rows P t [] = []"
| "delete_rows P t (x # xs) =
     (if same_name (tbl_name x) t
      then x\<lparr>tbl_rows := filter (\<lambda>r. \<not> P r) (tbl_rows x)\<rparr> # xs
      else x # delete_rows P t xs)"

text \<open>
  An \<open>INSERT\<close> offers to every column of the table the parameter that stands at the
  position of the column in the column list of the statement (at the first such
  position, when the list names the column twice), and nothing to a column that the list
  does not name. On a table without constraints and default values, offered values that
  the columns store as they are make a new row at the end of the table, with \<open>NULL\<close> in
  the columns that were offered nothing. What any other table makes of the offered
  values (the conversion to the declared types, the default values, the choice of a
  fresh key, the constraints, the place of the new row) is left unspecified. An
  \<open>INSERT\<close> never yields a row.
\<close>

definition offered :: "string list \<Rightarrow> sql_value list \<Rightarrow> string \<Rightarrow> sql_value option" where
  "offered cols ps c = map_option snd (find (\<lambda>(n, p). same_name n c) (zip cols ps))"

text \<open>The values that a column of an affinity stores without converting them.\<close>

fun kept :: "affinity \<Rightarrow> sql_value \<Rightarrow> bool" where
  "kept a SqlNull \<longleftrightarrow> True"
| "kept a (SqlBlob b) \<longleftrightarrow> True"
| "kept a (SqlText s) \<longleftrightarrow> a = AffText \<or> a = AffBlob"
| "kept a (SqlInteger n) \<longleftrightarrow> a = AffInteger \<or> a = AffNumeric \<or> a = AffBlob"
| "kept a (SqlFloat d) \<longleftrightarrow> a = AffReal \<or> a = AffBlob"

definition plain_table :: "sql_table \<Rightarrow> bool" where
  "plain_table tb \<longleftrightarrow>
     list_all (\<lambda>c. col_pk c = 0 \<and> \<not> col_autoinc c \<and> \<not> col_notnull c \<and> \<not> col_unique c \<and>
                   col_default c = None \<and> col_references c = None)
       (tbl_columns tb)"

fun add_row :: "sql_value list \<Rightarrow> string \<Rightarrow> sqlite3 \<Rightarrow> sqlite3" where
  "add_row r t [] = []"
| "add_row r t (x # xs) =
     (if same_name (tbl_name x) t
      then x\<lparr>tbl_rows := tbl_rows x @ [r]\<rparr> # xs
      else x # add_row r t xs)"

definition store_otherwise :: "sqlite3 \<Rightarrow> sql_table \<Rightarrow> sql_value option list \<Rightarrow> sqlite3 option" where
  "store_otherwise = undefined"

definition store_row :: "sqlite3 \<Rightarrow> sql_table \<Rightarrow> sql_value option list \<Rightarrow> sqlite3 option" where
  "store_row db tb vs =
     (if plain_table tb \<and>
         list_all (\<lambda>(c, v). case v of None \<Rightarrow> True
                            | Some x \<Rightarrow> kept (column_affinity (col_type c)) x)
           (zip (tbl_columns tb) vs)
      then Some (add_row (map (\<lambda>v. case v of None \<Rightarrow> SqlNull | Some x \<Rightarrow> x) vs) (tbl_name tb) db)
      else store_otherwise db tb vs)"

definition insert_row :: "sqlite3 \<Rightarrow> string \<Rightarrow> string list \<Rightarrow> sql_value list \<Rightarrow> sqlite3 option" where
  "insert_row db t cols ps =
     (case find_table db t of
        None \<Rightarrow> None
      | Some tb \<Rightarrow> store_row db tb (map (\<lambda>c. offered cols ps (col_name c)) (tbl_columns tb)))"

definition deliver :: "sqlite3_stmt \<Rightarrow> sql_value list list \<Rightarrow> result_code \<times> sqlite3_stmt" where
  "deliver stmt rows =
     (case rows of
        [] \<Rightarrow> (SQLITE_DONE, stmt\<lparr>stmt_row := None, stmt_pending := Some []\<rparr>)
      | r # rs \<Rightarrow> (SQLITE_ROW, stmt\<lparr>stmt_row := Some r, stmt_pending := Some rs\<rparr>))"

text \<open>
  \<open>sqlite3_step\<close> returns the result code, the database and the statement after the
  step. A \<open>SELECT\<close> finds its rows at the first step and delivers one row at each step.
\<close>

definition sqlite3_step :: "sqlite3 \<Rightarrow> sqlite3_stmt \<Rightarrow> result_code \<times> sqlite3 \<times> sqlite3_stmt" where
  "sqlite3_step db stmt =
     (case stmt_sql stmt of
        Create ine n cols \<Rightarrow>
          (case find_table db n of
             Some tb \<Rightarrow> (if ine then SQLITE_DONE else SQLITE_ERROR, db, stmt)
           | None \<Rightarrow>
               (SQLITE_DONE, db @ [\<lparr>tbl_name = n, tbl_columns = cols, tbl_rows = []\<rparr>], stmt))
      | Insert t cols k \<Rightarrow>
          (case insert_row db t cols (stmt_params stmt) of
             None \<Rightarrow> (SQLITE_ERROR, db, stmt)
           | Some db' \<Rightarrow> (SQLITE_DONE, db', stmt))
      | Delete t w \<Rightarrow>
          (case find_table db t of
             None \<Rightarrow> (SQLITE_ERROR, db, stmt)
           | Some tb \<Rightarrow>
               (SQLITE_DONE, delete_rows (where_holds db tb w (stmt_params stmt)) t db, stmt))
      | Select t w \<Rightarrow>
          (case stmt_pending stmt of
             Some rows \<Rightarrow> (fst (deliver stmt rows), db, snd (deliver stmt rows))
           | None \<Rightarrow>
              (case find_table db t of
                 None \<Rightarrow> (SQLITE_ERROR, db, stmt)
               | Some tb \<Rightarrow>
                   let rows = filter (where_holds db tb w (stmt_params stmt)) (tbl_rows tb)
                   in (fst (deliver stmt rows), db, snd (deliver stmt rows)))))"

subsection \<open>Reading the current row\<close>

definition sqlite3_column_count :: "sqlite3_stmt \<Rightarrow> nat" where
  "sqlite3_column_count stmt = length (stmt_columns stmt)"

definition sqlite3_column_name :: "sqlite3_stmt \<Rightarrow> nat \<Rightarrow> string" where
  "sqlite3_column_name stmt i =
     (if i < length (stmt_columns stmt) then stmt_columns stmt ! i else [])"

definition column_value :: "sqlite3_stmt \<Rightarrow> nat \<Rightarrow> sql_value" where
  "column_value stmt i = (case stmt_row stmt of None \<Rightarrow> SqlNull | Some r \<Rightarrow> nth_value r i)"

fun type_of_value :: "sql_value \<Rightarrow> column_type" where
  "type_of_value (SqlInteger _) = SQLITE_INTEGER"
| "type_of_value (SqlFloat _) = SQLITE_FLOAT"
| "type_of_value (SqlText _) = SQLITE_TEXT"
| "type_of_value (SqlBlob _) = SQLITE_BLOB"
| "type_of_value SqlNull = SQLITE_NULL"

definition sqlite3_column_type :: "sqlite3_stmt \<Rightarrow> nat \<Rightarrow> column_type" where
  "sqlite3_column_type stmt i = type_of_value (column_value stmt i)"

text \<open>
  The program asks for a value only in the type that \<open>sqlite3_column_type\<close> reported, so
  the conversions of the three functions below are not modelled. \<open>sqlite3_column_int\<close>
  returns the low 32 bits of the stored 64-bit integer.
\<close>

definition sqlite3_column_int :: "sqlite3_stmt \<Rightarrow> nat \<Rightarrow> 32 word" where
  "sqlite3_column_int stmt i = (case column_value stmt i of SqlInteger n \<Rightarrow> word_of_int n | _ \<Rightarrow> 0)"

definition sqlite3_column_double :: "sqlite3_stmt \<Rightarrow> nat \<Rightarrow> real" where
  "sqlite3_column_double stmt i = (case column_value stmt i of SqlFloat d \<Rightarrow> d | _ \<Rightarrow> 0)"

definition sqlite3_column_text :: "sqlite3_stmt \<Rightarrow> nat \<Rightarrow> string" where
  "sqlite3_column_text stmt i = (case column_value stmt i of SqlText s \<Rightarrow> s | _ \<Rightarrow> [])"

section \<open>The operations of \<open>src/Database.cpp\<close>\<close>

text \<open>
  Every operation takes the database and returns its result, or the exception it
  throws, together with the database it leaves behind.
\<close>

subsection \<open>Binding and decoding\<close>

text \<open>
  The binding loop of \<open>addRecord\<close>, \<open>removeRecord\<close> and \<open>getRecord\<close> (lines 105-118,
  149-162 and 227-240): the three copies differ in the wording of the message only. The
  result codes of the bind calls are not looked at.
\<close>

fun bindFields :: "sqlite3_stmt \<Rightarrow> int \<Rightarrow> RecordData \<Rightarrow> error + sqlite3_stmt" where
  "bindFields stmt index [] = Inr stmt"
| "bindFields stmt index ((key, value) # rest) =
     (if holds_int value
        then bindFields (snd (sqlite3_bind_int stmt index (get_int value))) (index + 1) rest
      else if holds_double value
        then bindFields (snd (sqlite3_bind_double stmt index (get_double value))) (index + 1) rest
      else if holds_string value
        then bindFields (snd (sqlite3_bind_text stmt index (c_str (get_string value))))
               (index + 1) rest
      else Inl (unsupported_field key))"

text \<open>
  The decoding loop of \<open>getRecord\<close>, \<open>getRecordByPseudoId\<close> and \<open>getAllRecords\<close> (lines
  245-264, 305-324 and 351-372), over the column numbers still to be read.
\<close>

fun decodeColumns :: "sqlite3_stmt \<Rightarrow> nat list \<Rightarrow> RecordData \<Rightarrow> error + RecordData" where
  "decodeColumns stmt [] recordData = Inr recordData"
| "decodeColumns stmt (i # is) recordData =
     (let columnName = sqlite3_column_name stmt i in
      case sqlite3_column_type stmt i of
        SQLITE_INTEGER \<Rightarrow>
          decodeColumns stmt is
            (AList.update columnName (FieldInt (sqlite3_column_int stmt i)) recordData)
      | SQLITE_FLOAT \<Rightarrow>
          decodeColumns stmt is
            (AList.update columnName (FieldDouble (sqlite3_column_double stmt i)) recordData)
      | SQLITE_TEXT \<Rightarrow>
          decodeColumns stmt is
            (AList.update columnName (FieldString (c_str (sqlite3_column_text stmt i))) recordData)
      | SQLITE_NULL \<Rightarrow>
          decodeColumns stmt is (AList.update columnName (FieldString []) recordData)
      | _ \<Rightarrow> Inl (unsupported_column columnName))"

definition decodeRow :: "sqlite3_stmt \<Rightarrow> error + RecordData" where
  "decodeRow stmt = decodeColumns stmt [0..<sqlite3_column_count stmt] []"

subsection \<open>createTable\<close>

fun columnDefinitions_loop :: "string \<Rightarrow> Column list \<Rightarrow> string" where
  "columnDefinitions_loop columnDefinitions [] = columnDefinitions"
| "columnDefinitions_loop columnDefinitions (c # cs) =
     columnDefinitions_loop
       (let d0 = (if columnDefinitions \<noteq> [] then columnDefinitions @ '', '' else columnDefinitions);
            d1 = d0 @ name c @ '' '' @ type c;
            d2 = (if primaryKey c then d1 @ '' PRIMARY KEY'' else d1);
            d3 = (if autoIncrement c then d2 @ '' AUTOINCREMENT'' else d2);
            d4 = (if notNull c then d3 @ '' NOT NULL'' else d3);
            d5 = (if unique c then d4 @ '' UNIQUE'' else d4);
            d6 = (case defaultVal c of Some v \<Rightarrow> d5 @ '' DEFAULT '' @ v | None \<Rightarrow> d5)
        in (case foreignKey c of Some v \<Rightarrow> d6 @ '' REFERENCES '' @ v | None \<Rightarrow> d6))
       cs"

definition createTable_query :: "string \<Rightarrow> Column list \<Rightarrow> string" where
  "createTable_query tbl columns =
     ''CREATE TABLE IF NOT EXISTS '' @ tbl @ '' ('' @ columnDefinitions_loop [] columns @ '')''"

definition createTable :: "sqlite3 \<Rightarrow> string \<Rightarrow> Column list \<Rightarrow> (error + unit) \<times> sqlite3" where
  "createTable db tbl columns =
     (if columns = [] then (Inl invalid_argument, db)
      else
        (case sqlite3_prepare_v2 db (c_str (createTable_query tbl columns)) of
           None \<Rightarrow> (Inl prepare_failed, db)
         | Some stmt \<Rightarrow>
            (case sqlite3_step db stmt of
               (rc, db', stmt') \<Rightarrow>
                 if rc \<noteq> SQLITE_DONE then (Inl execute_failed, db') else (Inr (), db'))))"

subsection \<open>addRecord\<close>

fun insert_loop :: "string \<times> string \<Rightarrow> string list \<Rightarrow> string \<times> string" where
  "insert_loop (columns, placeholders) [] = (columns, placeholders)"
| "insert_loop (columns, placeholders) (key # keys) =
     insert_loop
       (if columns \<noteq> [] then ((columns @ '', '') @ key, (placeholders @ '', '') @ ''?'')
        else (columns @ key, placeholders @ ''?''))
       keys"

definition addRecord_query :: "Record \<Rightarrow> string" where
  "addRecord_query record =
     (case insert_loop ([], []) (map fst (data record)) of
        (columns, placeholders) \<Rightarrow>
          ''INSERT INTO '' @ table record @ '' ('' @ columns @ '') VALUES ('' @ placeholders @ '')'')"

definition addRecord :: "sqlite3 \<Rightarrow> Record \<Rightarrow> (error + unit) \<times> sqlite3" where
  "addRecord db record =
     (case sqlite3_prepare_v2 db (c_str (addRecord_query record)) of
        None \<Rightarrow> (Inl prepare_failed, db)
      | Some stmt \<Rightarrow>
         (case bindFields stmt 1 (data record) of
            Inl e \<Rightarrow> (Inl e, db)
          | Inr stmt' \<Rightarrow>
             (case sqlite3_step db stmt' of
                (rc, db', stmt'') \<Rightarrow>
                  if rc \<noteq> SQLITE_DONE then (Inl execute_failed, db') else (Inr (), db'))))"

subsection \<open>removeRecord and getRecord\<close>

fun whereClause_loop :: "string \<Rightarrow> string list \<Rightarrow> string" where
  "whereClause_loop whereClause [] = whereClause"
| "whereClause_loop whereClause (key # keys) =
     whereClause_loop
       ((if whereClause \<noteq> [] then whereClause @ '' AND '' else whereClause) @ key @ '' = ?'')
       keys"

definition removeRecord_query :: "string \<Rightarrow> RecordData \<Rightarrow> string" where
  "removeRecord_query tbl dat =
     ''DELETE FROM '' @ tbl @ '' WHERE '' @ whereClause_loop [] (map fst dat)"

definition removeRecord :: "sqlite3 \<Rightarrow> string \<Rightarrow> RecordData \<Rightarrow> (error + unit) \<times> sqlite3" where
  "removeRecord db tbl dat =
     (case sqlite3_prepare_v2 db (c_str (removeRecord_query tbl dat)) of
        None \<Rightarrow> (Inl prepare_failed, db)
      | Some stmt \<Rightarrow>
         (case bindFields stmt 1 dat of
            Inl e \<Rightarrow> (Inl e, db)
          | Inr stmt' \<Rightarrow>
             (case sqlite3_step db stmt' of
                (rc, db', stmt'') \<Rightarrow>
                  if rc \<noteq> SQLITE_DONE then (Inl execute_failed, db') else (Inr (), db'))))"

definition getRecord_query :: "string \<Rightarrow> RecordData \<Rightarrow> string" where
  "getRecord_query tbl dat =
     ''SELECT * FROM '' @ tbl @ '' WHERE '' @ whereClause_loop [] (map fst dat)"

definition getRecord :: "sqlite3 \<Rightarrow> string \<Rightarrow> RecordData \<Rightarrow> (error + Record) \<times> sqlite3" where
  "getRecord db tbl dat =
     (case sqlite3_prepare_v2 db (c_str (getRecord_query tbl dat)) of
        None \<Rightarrow> (Inl prepare_failed, db)
      | Some stmt \<Rightarrow>
         (case bindFields stmt 1 dat of
            Inl e \<Rightarrow> (Inl e, db)
          | Inr stmt' \<Rightarrow>
             (case sqlite3_step db stmt' of
                (rc, db', stmt'') \<Rightarrow>
                  if rc = SQLITE_ROW then
                    (case decodeRow stmt'' of
                       Inl e \<Rightarrow> (Inl e, db')
                     | Inr recordData \<Rightarrow> (Inr \<lparr>data = recordData, table = tbl\<rparr>, db'))
                  else (Inl record_not_found, db'))))"

subsection \<open>The pseudo-ID operations\<close>

definition removeRecordByPseudoId_query :: "string \<Rightarrow> string" where
  "removeRecordByPseudoId_query tbl =
     ''\<newline>        DELETE FROM '' @ tbl @ ''\<newline>        WHERE id = (\<newline>            WITH PseudoIDs AS (\<newline>                SELECT ROW_NUMBER() OVER (ORDER BY id) AS pseudo_id, id\<newline>                FROM '' @ tbl @ ''\<newline>            )\<newline>            SELECT id\<newline>            FROM PseudoIDs\<newline>            WHERE pseudo_id = ?\<newline>        );\<newline>    ''"

definition removeRecordByPseudoId :: "sqlite3 \<Rightarrow> string \<Rightarrow> 32 word \<Rightarrow> (error + unit) \<times> sqlite3" where
  "removeRecordByPseudoId db tbl pseudoId =
     (case sqlite3_prepare_v2 db (c_str (removeRecordByPseudoId_query tbl)) of
        None \<Rightarrow> (Inl prepare_failed, db)
      | Some stmt \<Rightarrow>
         (case sqlite3_bind_int stmt 1 pseudoId of
            (brc, stmt') \<Rightarrow>
              if brc \<noteq> SQLITE_OK then (Inl bind_failed, db)
              else
                (case sqlite3_step db stmt' of
                   (rc, db', stmt'') \<Rightarrow>
                     if rc \<noteq> SQLITE_DONE then (Inl execute_failed, db') else (Inr (), db'))))"

definition getRecordByPseudoId_query :: "string \<Rightarrow> string" where
  "getRecordByPseudoId_query tbl =
     ''\<newline>        SELECT * FROM '' @ tbl @ ''\<newline>        WHERE id = (\<newline>            WITH PseudoIDs AS (\<newline>                SELECT ROW_NUMBER() OVER (ORDER BY id) AS pseudo_id, id\<newline>                FROM '' @ tbl @ ''\<newline>            )\<newline>            SELECT id\<newline>            FROM PseudoIDs\<newline>            WHERE pseudo_id = ?\<newline>        );\<newline>    ''"

definition getRecordByPseudoId :: "sqlite3 \<Rightarrow> string \<Rightarrow> 32 word \<Rightarrow> (error + Record) \<times> sqlite3" where
  "getRecordByPseudoId db tbl pseudoId =
     (case sqlite3_prepare_v2 db (c_str (getRecordByPseudoId_query tbl)) of
        None \<Rightarrow> (Inl prepare_failed, db)
      | Some stmt \<Rightarrow>
         (case sqlite3_bind_int stmt 1 pseudoId of
            (brc, stmt') \<Rightarrow>
              if brc \<noteq> SQLITE_OK then (Inl bind_failed, db)
              else
                (case sqlite3_step db stmt' of
                   (rc, db', stmt'') \<Rightarrow>
                     if rc = SQLITE_ROW then
                       (case decodeRow stmt'' of
                          Inl e \<Rightarrow> (Inl e, db')
                        | Inr recordData \<Rightarrow> (Inr \<lparr>data = recordData, table = tbl\<rparr>, db'))
                     else (Inl record_not_found, db'))))"

subsection \<open>getAllRecords\<close>

text \<open>
  The \<open>while\<close> loop of \<open>getAllRecords\<close> steps the statement until a step returns anything
  but \<open>SQLITE_ROW\<close>. It ends because every delivered row shortens the rows still to be
  delivered.
\<close>

definition rows_to_go :: "sqlite3 \<Rightarrow> sqlite3_stmt \<Rightarrow> nat" where
  "rows_to_go db stmt =
     (case stmt_sql stmt of
        Select t w \<Rightarrow>
          (case stmt_pending stmt of
             Some rows \<Rightarrow> length rows
           | None \<Rightarrow>
              (case find_table db t of None \<Rightarrow> 0 | Some tb \<Rightarrow> Suc (length (tbl_rows tb))))
      | _ \<Rightarrow> 0)"

function records_loop ::
  "sqlite3 \<Rightarrow> sqlite3_stmt \<Rightarrow> string \<Rightarrow> Record list \<Rightarrow> (error + Record list) \<times> sqlite3" where
  "records_loop db stmt tbl records =
     (case sqlite3_step db stmt of
        (rc, db', stmt') \<Rightarrow>
          if rc = SQLITE_ROW then
            (case decodeRow stmt' of
               Inl e \<Rightarrow> (Inl e, db')
             | Inr dat \<Rightarrow> records_loop db' stmt' tbl (records @ [\<lparr>data = dat, table = tbl\<rparr>]))
          else (Inr records, db'))"
  by pat_completeness auto

termination records_loop
proof (relation "measure (\<lambda>(db, stmt, tbl, records). rows_to_go db stmt)", goal_cases)
  case 1
  show ?case by simp
next
  case (2 db stmt tbl records rc rest db' stmt' dat)
  have shorter: "length ys < Suc (length xs)" if "filter P xs = y # ys"
    for P and xs :: "sql_value list list" and y ys
  proof -
    have "length (filter P xs) \<le> length xs" by (rule length_filter_le)
    with that show ?thesis by simp
  qed
  from 2 have "sqlite3_step db stmt = (SQLITE_ROW, db', stmt')" by metis
  then have "rows_to_go db' stmt' < rows_to_go db stmt"
    by (auto simp: sqlite3_step_def rows_to_go_def deliver_def Let_def shorter
             split: statement.splits option.splits list.splits if_splits)
  then show ?case by simp
qed

declare records_loop.simps [simp del]

definition getAllRecords_query :: "string \<Rightarrow> string" where
  "getAllRecords_query tbl = ''SELECT * FROM '' @ tbl"

definition getAllRecords :: "sqlite3 \<Rightarrow> string \<Rightarrow> (error + Record list) \<times> sqlite3" where
  "getAllRecords db tbl =
     (case sqlite3_prepare_v2 db (c_str (getAllRecords_query tbl)) of
        None \<Rightarrow> (Inl prepare_failed, db)
      | Some stmt \<Rightarrow> records_loop db stmt tbl [])"

section \<open>Example data\<close>

text \<open>
  The table \<open>tasks\<close> as \<open>main\<close> declares it, a database in which it holds three tasks,
  and the records that \<open>getAllRecords\<close> returns for them.
\<close>

definition plain_column :: "string \<Rightarrow> string \<Rightarrow> Column" where
  "plain_column n t =
     \<lparr>name = n, type = t, primaryKey = False, autoIncrement = False, notNull = False,
      unique = False, defaultVal = None, foreignKey = None\<rparr>"

definition tasks_columns :: "Column list" where
  "tasks_columns =
     [(plain_column ''id'' ''INTEGER'')\<lparr>primaryKey := True, autoIncrement := True\<rparr>,
      plain_column ''title'' ''TEXT'',
      plain_column ''description'' ''TEXT'',
      (plain_column ''timeCreated'' ''DATETIME'')\<lparr>defaultVal := Some ''CURRENT_TIMESTAMP''\<rparr>]"

definition stored_column :: "string \<Rightarrow> string \<Rightarrow> sql_column" where
  "stored_column n t =
     \<lparr>col_name = n, col_type = [t], col_pk = 0, col_autoinc = False, col_notnull = False,
      col_unique = False, col_default = None, col_references = None\<rparr>"

definition tasks_schema :: "sql_column list" where
  "tasks_schema =
     [(stored_column ''id'' ''INTEGER'')\<lparr>col_pk := 1, col_autoinc := True\<rparr>,
      stored_column ''title'' ''TEXT'',
      stored_column ''description'' ''TEXT'',
      (stored_column ''timeCreated'' ''DATETIME'')\<lparr>col_default := Some ''CURRENT_TIMESTAMP''\<rparr>]"

definition tasks_table :: sql_table where
  "tasks_table =
     \<lparr>tbl_name = ''tasks'', tbl_columns = tasks_schema,
       tbl_rows =
         [ [SqlInteger 1, SqlText ''Buy milk'', SqlNull, SqlText ''2024-05-01 08:00:00''],
          [SqlInteger 4, SqlText ''Walk dog'', SqlText ''twice'', SqlText ''2024-05-01 09:30:00''],
          [SqlInteger 7, SqlText ''Pay rent'', SqlNull, SqlText ''2024-05-02 10:15:00''] ]\<rparr>"

definition example_db :: sqlite3 where
  "example_db = [tasks_table]"

definition tasks_records :: "Record list" where
  "tasks_records =
     [\<lparr>data = [(''id'', FieldInt 1), (''title'', FieldString ''Buy milk''),
               (''description'', FieldString []),
               (''timeCreated'', FieldString ''2024-05-01 08:00:00'')], table = ''tasks''\<rparr>,
      \<lparr>data = [(''id'', FieldInt 4), (''title'', FieldString ''Walk dog''),
               (''description'', FieldString ''twice''),
               (''timeCreated'', FieldString ''2024-05-01 09:30:00'')], table = ''tasks''\<rparr>,
      \<lparr>data = [(''id'', FieldInt 7), (''title'', FieldString ''Pay rent''),
               (''description'', FieldString []),
               (''timeCreated'', FieldString ''2024-05-02 10:15:00'')], table = ''tasks''\<rparr>]"

definition example_record :: Record where
  "example_record =
     \<lparr>data = [(''title'', FieldString ''Buy milk''), (''description'', FieldString ''2 litres'')],
      table = ''tasks''\<rparr>"

text \<open>
  A table whose primary key is the column \<open>k\<close>, not \<open>id\<close>: its rows are in the order of
  \<open>k\<close>. And a table whose column \<open>id\<close> is no key at all.
\<close>

definition notes_table :: sql_table where
  "notes_table =
     \<lparr>tbl_name = ''notes'',
      tbl_columns = [(stored_column ''k'' ''INTEGER'')\<lparr>col_pk := 1\<rparr>,
                     stored_column ''id'' ''INTEGER'', stored_column ''body'' ''TEXT''],
      tbl_rows = [ [SqlInteger 1, SqlInteger 20, SqlText ''first''],
                  [SqlInteger 2, SqlInteger 10, SqlText ''second''] ]\<rparr>"

definition notes_db :: sqlite3 where
  "notes_db = [notes_table]"

definition notes_records :: "Record list" where
  "notes_records =
     [\<lparr>data = [(''k'', FieldInt 1), (''id'', FieldInt 20), (''body'', FieldString ''first'')],
       table = ''notes''\<rparr>,
      \<lparr>data = [(''k'', FieldInt 2), (''id'', FieldInt 10), (''body'', FieldString ''second'')],
       table = ''notes''\<rparr>]"

definition log_table :: sql_table where
  "log_table =
     \<lparr>tbl_name = ''log'',
      tbl_columns = [stored_column ''id'' ''INTEGER'', stored_column ''entry'' ''TEXT''],
      tbl_rows = [ [SqlInteger 1, SqlText ''a''], [SqlInteger 1, SqlText ''b''],
                  [SqlInteger 2, SqlText ''c''] ]\<rparr>"

definition log_db :: sqlite3 where
  "log_db = [log_table]"

text \<open>A record for the table \<open>log\<close>, with its keys in another order than the columns.\<close>

definition log_record :: Record where
  "log_record = \<lparr>data = [(''entry'', FieldString ''d''), (''id'', FieldInt 3)], table = ''log''\<rparr>"

text \<open>A table that holds a value of a type outside the decoding policy, a \<open>BLOB\<close>.\<close>

definition files_table :: sql_table where
  "files_table =
     \<lparr>tbl_name = ''files'',
      tbl_columns = [(stored_column ''id'' ''INTEGER'')\<lparr>col_pk := 1\<rparr>,
                     stored_column ''name'' ''TEXT'', stored_column ''body'' ''BLOB''],
      tbl_rows = [ [SqlInteger 1, SqlText ''readme'', SqlNull],
                  [SqlInteger 2, SqlText ''logo'', SqlBlob ''GIF89a''] ]\<rparr>"

definition files_db :: sqlite3 where
  "files_db = [files_table]"

section \<open>Notions used to state the properties\<close>

text \<open>The value that binding a \<open>Field\<close> gives to a parameter.\<close>

fun bound_value :: "Field \<Rightarrow> sql_value" where
  "bound_value (FieldInt x) = SqlInteger (sint x)"
| "bound_value (FieldDouble d) = SqlFloat d"
| "bound_value (FieldString s) = SqlText (c_str s)"

text \<open>
  The decoding policy in the words of the specification: an integer gives the \<open>int\<close>
  field, a floating point value the \<open>double\<close> field, a text the string field, \<open>NULL\<close> the
  empty string, and any other type gives no field.
\<close>

fun decode_value :: "sql_value \<Rightarrow> Field option" where
  "decode_value (SqlInteger n) = Some (FieldInt (word_of_int n))"
| "decode_value (SqlFloat d) = Some (FieldDouble d)"
| "decode_value (SqlText s) = Some (FieldString (c_str s))"
| "decode_value SqlNull = Some (FieldString [])"
| "decode_value (SqlBlob b) = None"

definition column_names :: "sql_table \<Rightarrow> string list" where
  "column_names tb = map col_name (tbl_columns tb)"

text \<open>
  A row matches a filter when, for every key of the filter, the key names a column and
  the value of the row in that column equals, as SQLite compares a column with a
  parameter, the value bound for the key.
\<close>

definition row_matches :: "sql_table \<Rightarrow> RecordData \<Rightarrow> sql_value list \<Rightarrow> bool" where
  "row_matches tb dat row \<longleftrightarrow>
     list_all (\<lambda>(k, v). case column_index (tbl_columns tb) k of
                          None \<Rightarrow> False
                        | Some j \<Rightarrow>
                            column_equals (tbl_columns tb ! j) (nth_value row j) (bound_value v))
       dat"

text \<open>
  \<open>decoded_row tbl names row res\<close>: the result \<open>res\<close> is what the policy gives for the row.
  Either it is a record of the table \<open>tbl\<close> that maps every column name to the field of
  the value in that column, every value having a field; or it is the "unsupported column
  type" error for a column whose value has none.
\<close>

definition decoded_row :: "string \<Rightarrow> string list \<Rightarrow> sql_value list \<Rightarrow> error + Record \<Rightarrow> bool" where
  "decoded_row tbl names row res \<longleftrightarrow>
     (case res of
        Inr rec \<Rightarrow>
          table rec = tbl \<and>
          list_all (\<lambda>i. decode_value (nth_value row i) \<noteq> None \<and>
                        map_of (data rec) (names ! i) = decode_value (nth_value row i))
            [0..<length names]
      | Inl e \<Rightarrow>
          list_ex (\<lambda>i. decode_value (nth_value row i) = None \<and> e = unsupported_column (names ! i))
            [0..<length names])"

text \<open>
  The values of the column \<open>id\<close> along the rows of a table, and the \<open>k\<close>-th smallest of
  them in the order of \<open>ORDER BY\<close>; \<open>NULL\<close> stands for the \<open>k\<close>-th smallest when \<open>k\<close> is
  not the number of a row. \<open>id_equals tb v row\<close>: the row has an \<open>id\<close> equal to \<open>v\<close>.
\<close>

definition id_values :: "sql_table \<Rightarrow> sql_value list" where
  "id_values tb =
     (case column_index (tbl_columns tb) ''id'' of
        None \<Rightarrow> []
      | Some j \<Rightarrow> map (\<lambda>row. nth_value row j) (tbl_rows tb))"

definition kth_id :: "sql_table \<Rightarrow> int \<Rightarrow> sql_value" where
  "kth_id tb k =
     (if 1 \<le> k \<and> k \<le> int (length (tbl_rows tb))
      then sort_values (id_values tb) ! (nat k - 1)
      else SqlNull)"

definition id_equals :: "sql_table \<Rightarrow> sql_value \<Rightarrow> sql_value list \<Rightarrow> bool" where
  "id_equals tb v row \<longleftrightarrow>
     (case column_index (tbl_columns tb) ''id'' of
        None \<Rightarrow> False
      | Some j \<Rightarrow> sql_eq (nth_value row j) v)"

text \<open>
  \<open>id_is_unique\<close>: the table has a column \<open>id\<close>, no row holds \<open>NULL\<close> in it and no two rows
  hold equal values in it. \<open>id_in_row_order\<close>: the rows of the table are in the ascending
  order of \<open>id\<close>, so that sorting them by \<open>id\<close> changes nothing; SQLite keeps the rows of
  a table with an \<open>id INTEGER PRIMARY KEY\<close> in this order.
\<close>

fun all_differ :: "sql_value list \<Rightarrow> bool" where
  "all_differ [] \<longleftrightarrow> True"
| "all_differ (v # vs) \<longleftrightarrow> v \<noteq> SqlNull \<and> list_all (\<lambda>w. \<not> sql_eq v w) vs \<and> all_differ vs"

definition id_is_unique :: "sql_table \<Rightarrow> bool" where
  "id_is_unique tb \<longleftrightarrow> has_column tb ''id'' \<and> all_differ (id_values tb)"

definition id_in_row_order :: "sql_table \<Rightarrow> bool" where
  "id_in_row_order tb \<longleftrightarrow> sort_values (id_values tb) = id_values tb"

text \<open>
  The value that a record offers to a column: the value bound for the field of the first
  key that names the column, and nothing when no key names it.
\<close>

definition field_for :: "RecordData \<Rightarrow> string \<Rightarrow> sql_value option" where
  "field_for dat c = map_option (bound_value \<circ> snd) (find (\<lambda>(k, v). same_name k c) dat)"

section \<open>Notions used in the proofs\<close>


fun is_create_if_absent :: "statement \<Rightarrow> bool" where
  "is_create_if_absent (Create ine n cols) = ine"
| "is_create_if_absent _ = False"

text \<open>
  What the loops of the operations compute, as functions of the rows: the record of one
  row, the record of the first row of a list, and the records of all rows.
\<close>

fun decode_fields :: "(string \<times> sql_value) list \<Rightarrow> RecordData \<Rightarrow> error + RecordData" where
  "decode_fields [] acc = Inr acc"
| "decode_fields ((n, v) # rest) acc =
     (case decode_value v of
        None \<Rightarrow> Inl (unsupported_column n)
      | Some f \<Rightarrow> decode_fields rest (AList.update n f acc))"

definition record_of_row :: "string list \<Rightarrow> sql_value list \<Rightarrow> error + RecordData" where
  "record_of_row names row =
     decode_fields (map (\<lambda>i. (names ! i, nth_value row i)) [0..<length names]) []"

definition first_record :: "string \<Rightarrow> string list \<Rightarrow> sql_value list list \<Rightarrow> error + Record" where
  "first_record tbl names rows =
     (case rows of
        [] \<Rightarrow> Inl record_not_found
      | row # _ \<Rightarrow>
         (case record_of_row names row of
            Inl e \<Rightarrow> Inl e
          | Inr d \<Rightarrow> Inr \<lparr>data = d, table = tbl\<rparr>))"

fun collect_records :: "string \<Rightarrow> (error + RecordData) list \<Rightarrow> Record list \<Rightarrow> error + Record list" where
  "collect_records tbl [] acc = Inr acc"
| "collect_records tbl (Inl e # rs) acc = Inl e"
| "collect_records tbl (Inr d # rs) acc = collect_records tbl rs (acc @ [\<lparr>data = d, table = tbl\<rparr>])"

text \<open>
  The text that the loops over the keys append after the first key, and the tokens of
  that text.
\<close>

fun and_conds :: "string list \<Rightarrow> string" where
  "and_conds [] = []"
| "and_conds (k # ks) = '' AND '' @ k @ '' = ?'' @ and_conds ks"

fun cond_tokens :: "string list \<Rightarrow> token list" where
  "cond_tokens [] = []"
| "cond_tokens (k # ks) = Word ''AND'' # Word k # EQ # QMARK # cond_tokens ks"

fun comma_names :: "string list \<Rightarrow> string" where
  "comma_names [] = []"
| "comma_names (k # ks) = '', '' @ k @ comma_names ks"

fun comma_qmarks :: "string list \<Rightarrow> string" where
  "comma_qmarks [] = []"
| "comma_qmarks (k # ks) = '', ?'' @ comma_qmarks ks"

fun name_tokens :: "string list \<Rightarrow> token list" where
  "name_tokens [] = []"
| "name_tokens (k # ks) = COMMA # Word k # name_tokens ks"

fun qmark_tokens :: "string list \<Rightarrow> token list" where
  "qmark_tokens [] = []"
| "qmark_tokens (k # ks) = COMMA # QMARK # qmark_tokens ks"

section \<open>Reading the statements that the operations write\<close>

lemmas char_defs =
  is_letter_def is_digit_def is_space_def symbol_of_def upper_letters_def lower_letters_def

lemma zip_letters:
  "zip lower_letters upper_letters =
   [(CHR ''a'', CHR ''A''), (CHR ''b'', CHR ''B''), (CHR ''c'', CHR ''C''), (CHR ''d'', CHR ''D''),
    (CHR ''e'', CHR ''E''), (CHR ''f'', CHR ''F''), (CHR ''g'', CHR ''G''), (CHR ''h'', CHR ''H''),
    (CHR ''i'', CHR ''I''), (CHR ''j'', CHR ''J''), (CHR ''k'', CHR ''K''), (CHR ''l'', CHR ''L''),
    (CHR ''m'', CHR ''M''), (CHR ''n'', CHR ''N''), (CHR ''o'', CHR ''O''), (CHR ''p'', CHR ''P''),
    (CHR ''q'', CHR ''Q''), (CHR ''r'', CHR ''R''), (CHR ''s'', CHR ''S''), (CHR ''t'', CHR ''T''),
    (CHR ''u'', CHR ''U''), (CHR ''v'', CHR ''V''), (CHR ''w'', CHR ''W''), (CHR ''x'', CHR ''X''),
    (CHR ''y'', CHR ''Y''), (CHR ''z'', CHR ''Z'')]"
  by (simp add: lower_letters_def upper_letters_def)

lemmas upper_defs = kw_def sql_upper_def char_upper_def zip_letters

lemmas parse_defs =
  parse_sql_def lex_def parse_statement_def parse_create_def parse_insert_def parse_delete_def
  parse_select_def parse_where_def parse_rank_def rank_prefix_def rank_suffix_def

subsection \<open>Plain names\<close>

lemma sql_name_ident [simp]: "sql_name t \<Longrightarrow> is_ident t"
  by (simp add: sql_name_def)

lemma sql_name_nonempty [simp]: "sql_name t \<Longrightarrow> t \<noteq> []"
  by (auto simp: sql_name_def)

lemma sql_name_chars: "sql_name t \<Longrightarrow> c \<in> set t \<Longrightarrow> is_letter c \<or> is_digit c"
  by (cases t) (auto simp: sql_name_def list_all_iff)

lemma letter_not_zero: "is_letter c \<or> is_digit c \<Longrightarrow> c \<noteq> CHR 0x00"
  by (auto simp: char_defs)

lemma sql_name_no_zero [simp]: "sql_name t \<Longrightarrow> CHR 0x00 \<notin> set t"
  using letter_not_zero sql_name_chars by blast

lemma name_of_name [simp]: "sql_name t \<Longrightarrow> name_of (Word t) = Some t"
  by simp

lemma same_name_refl [simp]: "same_name n n"
  by (simp add: same_name_def)

lemma same_name_sym: "same_name a b \<Longrightarrow> same_name b a"
  by (simp add: same_name_def)

lemma same_name_trans: "same_name a b \<Longrightarrow> same_name b c \<Longrightarrow> same_name a c"
  by (simp add: same_name_def)

subsection \<open>C strings\<close>

lemma c_str_id: "CHR 0x00 \<notin> set s \<Longrightarrow> c_str s = s"
  by (auto simp: c_str_def)

lemma c_str_append: "CHR 0x00 \<notin> set p \<Longrightarrow> c_str (p @ s) = p @ c_str s"
  unfolding c_str_def by (rule takeWhile_append2) auto

subsection \<open>The lexer on names\<close>

lemma lex_word_run:
  "list_all (\<lambda>d. is_letter d \<or> is_digit d) ws \<Longrightarrow> w \<noteq> [] \<Longrightarrow>
   lex_from w (ws @ rest) = lex_from (w @ ws) rest"
  by (induction ws arbitrary: w) auto

lemma lex_name [simp]: "sql_name t \<Longrightarrow> lex_from [] (t @ rest) = lex_from t rest"
  using lex_word_run[of "tl t" "[hd t]" rest]
  by (cases t) (auto simp: sql_name_def)

lemma lex_name_end [simp]: "sql_name t \<Longrightarrow> lex_from [] t = Some [Word t]"
  using lex_name[of t "[]"] by (simp add: flush_def)

lemma flush_name [simp]: "sql_name t \<Longrightarrow> flush t ts = Word t # ts"
  by (simp add: flush_def)

lemma flush_Nil [simp]: "flush [] ts = ts"
  by (simp add: flush_def)

lemma flush_Cons [simp]: "flush (c # cs) ts = Word (c # cs) # ts"
  by (simp add: flush_def)

subsection \<open>The WHERE clause of a filter\<close>

lemma whereClause_loop_append:
  "acc \<noteq> [] \<Longrightarrow> whereClause_loop acc keys = acc @ and_conds keys"
  by (induction keys arbitrary: acc) simp_all

lemma whereClause_loop_Cons:
  "whereClause_loop [] (k # keys) = k @ '' = ?'' @ and_conds keys"
  by (simp add: whereClause_loop_append)

lemma lex_conds:
  "list_all sql_name ks \<Longrightarrow> lex_from [] (and_conds ks) = Some (cond_tokens ks)"
  by (induction ks) (simp_all add: char_defs)

lemma lex_whereClause:
  "sql_name k \<Longrightarrow> list_all sql_name ks \<Longrightarrow>
   lex_from [] (whereClause_loop [] (k # ks)) = Some (Word k # EQ # QMARK # cond_tokens ks)"
  by (simp add: whereClause_loop_append char_defs lex_conds)

lemma and_conds_no_zero: "list_all sql_name ks \<Longrightarrow> CHR 0x00 \<notin> set (and_conds ks)"
  by (induction ks) auto

lemma semi_free_conds [simp]: "takeWhile (\<lambda>t. t \<noteq> SEMI) (cond_tokens ks) = cond_tokens ks"
  by (induction ks) simp_all

lemma parse_conds_tokens:
  "sql_name k \<Longrightarrow> list_all sql_name ks \<Longrightarrow>
   parse_conds (Word k # EQ # QMARK # cond_tokens ks) = Some (k # ks)"
  by (induction ks arbitrary: k) (simp_all add: upper_defs)

lemma parse_rank_conds [simp]: "parse_rank (Word k # EQ # QMARK # ts) = None"
  by (simp add: parse_rank_def rank_prefix_def)

lemma whereClause_no_zero:
  "list_all sql_name ks \<Longrightarrow> CHR 0x00 \<notin> set (whereClause_loop [] ks)"
proof (cases ks)
  case Nil
  then show ?thesis by simp
next
  case (Cons k ks')
  assume "list_all sql_name ks"
  with Cons have "sql_name k" and "\<forall>x\<in>set ks'. sql_name x"
    by (simp_all add: list_all_iff)
  with Cons show ?thesis
    using and_conds_no_zero[of ks'] by (auto simp: whereClause_loop_append list_all_iff)
qed

lemma parse_getRecord_query:
  assumes "sql_name t" and "list_all sql_name (map fst dat)" and "dat \<noteq> []"
  shows "parse_sql (c_str (getRecord_query t dat)) = Some (Select t (Conds (map fst dat)))"
proof -
  obtain k ks where keys: "map fst dat = k # ks"
    using assms(3) by (cases dat) auto
  with assms(2) have k: "sql_name k" and ks: "list_all sql_name ks" by simp_all
  have "c_str (getRecord_query t dat) = getRecord_query t dat"
    using assms(1) whereClause_no_zero[OF assms(2)]
    by (intro c_str_id) (auto simp: getRecord_query_def)
  moreover have "lex_from [] (getRecord_query t dat) =
       Some (Word ''SELECT'' # STAR # Word ''FROM'' # Word t # Word ''WHERE'' #
             Word k # EQ # QMARK # cond_tokens ks)"
    using assms(1) lex_whereClause[OF k ks]
    by (simp add: getRecord_query_def keys char_defs)
  ultimately show ?thesis
    using assms(1) parse_conds_tokens[OF k ks]
    by (simp add: parse_sql_def lex_def parse_statement_def parse_select_def parse_where_def
          upper_defs keys)
qed

lemma parse_removeRecord_query:
  assumes "sql_name t" and "list_all sql_name (map fst dat)" and "dat \<noteq> []"
  shows "parse_sql (c_str (removeRecord_query t dat)) = Some (Delete t (Conds (map fst dat)))"
proof -
  obtain k ks where keys: "map fst dat = k # ks"
    using assms(3) by (cases dat) auto
  with assms(2) have k: "sql_name k" and ks: "list_all sql_name ks" by simp_all
  have "c_str (removeRecord_query t dat) = removeRecord_query t dat"
    using assms(1) whereClause_no_zero[OF assms(2)]
    by (intro c_str_id) (auto simp: removeRecord_query_def)
  moreover have "lex_from [] (removeRecord_query t dat) =
       Some (Word ''DELETE'' # Word ''FROM'' # Word t # Word ''WHERE'' #
             Word k # EQ # QMARK # cond_tokens ks)"
    using assms(1) lex_whereClause[OF k ks]
    by (simp add: removeRecord_query_def keys char_defs)
  ultimately show ?thesis
    using assms(1) parse_conds_tokens[OF k ks]
    by (simp add: parse_sql_def lex_def parse_statement_def parse_delete_def parse_where_def
          upper_defs keys)
qed

lemma parse_empty_filter:
  assumes "sql_name t"
  shows "parse_sql (c_str (removeRecord_query t [])) = None"
    and "parse_sql (c_str (getRecord_query t [])) = None"
proof -
  have "c_str (removeRecord_query t []) = removeRecord_query t []"
    using assms by (intro c_str_id) (auto simp: removeRecord_query_def)
  then show "parse_sql (c_str (removeRecord_query t [])) = None"
    using assms by (simp add: parse_defs removeRecord_query_def char_defs upper_defs)
  have "c_str (getRecord_query t []) = getRecord_query t []"
    using assms by (intro c_str_id) (auto simp: getRecord_query_def)
  then show "parse_sql (c_str (getRecord_query t [])) = None"
    using assms by (simp add: parse_defs getRecord_query_def char_defs upper_defs)
qed

subsection \<open>The pseudo-ID statements and the full scan\<close>

lemma parse_getRecordByPseudoId_query:
  assumes "sql_name t"
  shows "parse_sql (c_str (getRecordByPseudoId_query t)) = Some (Select t (IdOfRank t))"
proof -
  have "c_str (getRecordByPseudoId_query t) = getRecordByPseudoId_query t"
    using assms by (intro c_str_id) (auto simp: getRecordByPseudoId_query_def)
  then show ?thesis
    using assms by (simp add: parse_defs getRecordByPseudoId_query_def char_defs upper_defs)
qed

lemma parse_removeRecordByPseudoId_query:
  assumes "sql_name t"
  shows "parse_sql (c_str (removeRecordByPseudoId_query t)) = Some (Delete t (IdOfRank t))"
proof -
  have "c_str (removeRecordByPseudoId_query t) = removeRecordByPseudoId_query t"
    using assms by (intro c_str_id) (auto simp: removeRecordByPseudoId_query_def)
  then show ?thesis
    using assms by (simp add: parse_defs removeRecordByPseudoId_query_def char_defs upper_defs)
qed

lemma parse_getAllRecords_query:
  assumes "sql_name t"
  shows "parse_sql (c_str (getAllRecords_query t)) = Some (Select t NoWhere)"
proof -
  have "c_str (getAllRecords_query t) = getAllRecords_query t"
    using assms by (intro c_str_id) (auto simp: getAllRecords_query_def)
  then show ?thesis
    using assms by (simp add: parse_defs getAllRecords_query_def char_defs upper_defs)
qed

subsection \<open>The INSERT statement\<close>

lemma insert_loop_append:
  "c \<noteq> [] \<Longrightarrow> insert_loop (c, p) ks = (c @ comma_names ks, p @ comma_qmarks ks)"
  by (induction ks arbitrary: c p) simp_all

lemma lex_comma_names:
  "list_all sql_name ks \<Longrightarrow> sql_name k \<Longrightarrow>
   lex_from k (comma_names ks @ CHR '')'' # r) =
   map_option (\<lambda>ts. Word k # name_tokens ks @ RP # ts) (lex_from [] r)"
proof (induction ks arbitrary: k)
  case Nil
  then show ?case by (simp add: char_defs)
next
  case (Cons k' ks)
  then have "lex_from k' (comma_names ks @ CHR '')'' # r) =
      map_option (\<lambda>ts. Word k' # name_tokens ks @ RP # ts) (lex_from [] r)"
    by simp
  with Cons.prems show ?case
    by (simp add: char_defs option.map_comp comp_def)
qed

lemma lex_comma_qmarks:
  "lex_from [] (comma_qmarks ks @ '')'') = Some (qmark_tokens ks @ [RP])"
  by (induction ks) (simp_all add: char_defs)

lemma comma_names_no_zero: "list_all sql_name ks \<Longrightarrow> CHR 0x00 \<notin> set (comma_names ks)"
  by (induction ks) auto

lemma comma_qmarks_no_zero: "CHR 0x00 \<notin> set (comma_qmarks ks)"
  by (induction ks) auto

lemma name_tokens_split:
  "takeWhile (\<lambda>x. x \<noteq> RP) (name_tokens ks @ RP # r) = name_tokens ks"
  "dropWhile (\<lambda>x. x \<noteq> RP) (name_tokens ks @ RP # r) = RP # r"
  by (induction ks) simp_all

lemma name_tokens_semi:
  "takeWhile (\<lambda>t. t \<noteq> SEMI) (name_tokens ks @ ts) = name_tokens ks @ takeWhile (\<lambda>t. t \<noteq> SEMI) ts"
  by (induction ks) simp_all

lemma qmark_tokens_semi:
  "takeWhile (\<lambda>t. t \<noteq> SEMI) (qmark_tokens ks @ ts) = qmark_tokens ks @ takeWhile (\<lambda>t. t \<noteq> SEMI) ts"
  by (induction ks) simp_all

lemma parse_names_tokens:
  "sql_name k \<Longrightarrow> list_all sql_name ks \<Longrightarrow> parse_names (Word k # name_tokens ks) = Some (k # ks)"
  by (induction ks arbitrary: k) simp_all

lemma parse_qmarks_tokens: "parse_qmarks (QMARK # qmark_tokens ks) = Some (Suc (length ks))"
  by (induction ks) simp_all

lemma parse_addRecord_query:
  assumes "sql_name (table r)" and "list_all sql_name (map fst (data r))" and "data r \<noteq> []"
  shows "parse_sql (c_str (addRecord_query r)) =
         Some (Insert (table r) (map fst (data r)) (length (data r)))"
proof -
  obtain k ks where keys: "map fst (data r) = k # ks"
    using assms(3) by (cases "data r") auto
  with assms(2) have k: "sql_name k" and ks: "list_all sql_name ks" by simp_all
  have len: "length (data r) = Suc (length ks)"
    using keys by (metis length_Cons length_map)
  have q: "addRecord_query r =
      ''INSERT INTO '' @ table r @ '' ('' @ k @ comma_names ks @ '') VALUES (?'' @
      comma_qmarks ks @ '')''"
    using k by (simp add: addRecord_query_def keys insert_loop_append)
  have "c_str (addRecord_query r) = addRecord_query r"
    using assms(1) k comma_names_no_zero[OF ks] comma_qmarks_no_zero[of ks]
    by (intro c_str_id) (auto simp: q)
  moreover have "lex_from [] (addRecord_query r) =
       Some (Word ''INSERT'' # Word ''INTO'' # Word (table r) # LP # Word k # name_tokens ks @
             RP # Word ''VALUES'' # LP # QMARK # qmark_tokens ks @ [RP])"
    using assms(1) k lex_comma_names[OF ks k] lex_comma_qmarks[of ks]
    by (simp add: q char_defs)
  ultimately show ?thesis
    using assms(1) parse_names_tokens[OF k ks] parse_qmarks_tokens[of ks]
    by (simp add: parse_sql_def lex_def parse_statement_def parse_insert_def upper_defs keys len
          name_tokens_split name_tokens_semi qmark_tokens_semi butlast_append)
qed

subsection \<open>Any table argument\<close>


lemma parse_table_body_create: "parse_table_body True ts = Some s \<Longrightarrow> is_create_if_absent s"
  by (auto simp: parse_table_body_def split: list.splits option.splits if_splits)



lemma parse_createTable_query:
  assumes "parse_sql (c_str (createTable_query tbl columns)) = Some s"
  shows "is_create_if_absent s"
proof -
  have "c_str (createTable_query tbl columns) =
        ''CREATE TABLE IF NOT EXISTS '' @ c_str (tbl @ '' ('' @ columnDefinitions_loop [] columns @ '')'')"
    unfolding createTable_query_def by (rule c_str_append) simp
  with assms obtain ts where "parse_table_body True (takeWhile (\<lambda>t. t \<noteq> SEMI) ts) = Some s"
    by (auto simp: parse_sql_def lex_def char_defs parse_statement_def parse_create_def upper_defs
             split: option.splits)
  then show ?thesis by (rule parse_table_body_create)
qed

subsection \<open>Binding\<close>

lemma holds_some_alternative: "holds_int v \<or> holds_double v \<or> holds_string v"
  by (cases v) simp_all

lemma bindFields_returns: "\<exists>stmt'. bindFields stmt i dat = Inr stmt'"
proof (induction dat arbitrary: stmt i)
  case Nil
  show ?case by simp
next
  case (Cons kv dat)
  obtain k v where kv: "kv = (k, v)" by (cases kv)
  show ?case
  proof (cases v)
    case (FieldInt x)
    with kv Cons.IH show ?thesis by simp
  next
    case (FieldDouble x)
    with kv Cons.IH show ?thesis by simp
  next
    case (FieldString x)
    with kv Cons.IH show ?thesis by simp
  qed
qed

lemma bindFields_params:
  "j + length dat \<le> length (stmt_params stmt) \<Longrightarrow>
   bindFields stmt (int j + 1) dat =
   Inr (stmt\<lparr>stmt_params := take j (stmt_params stmt) @ map (bound_value \<circ> snd) dat @
                               drop (j + length dat) (stmt_params stmt)\<rparr>)"
proof (induction dat arbitrary: stmt j)
  case Nil
  then show ?case by simp
next
  case (Cons kv dat)
  obtain k v where kv: "kv = (k, v)" by (cases kv)
  let ?ps = "stmt_params stmt"
  let ?stmt = "stmt\<lparr>stmt_params := ?ps[j := bound_value v]\<rparr>"
  from Cons.prems have j: "j < length ?ps" by simp
  have step: "bindFields stmt (int j + 1) (kv # dat) = bindFields ?stmt (int (Suc j) + 1) dat"
    using j
    by (cases v)
       (simp_all add: kv sqlite3_bind_int_def sqlite3_bind_double_def sqlite3_bind_text_def
          sqlite3_bind_def add.commute)
  have "Suc j + length dat \<le> length (stmt_params ?stmt)"
    using Cons.prems by simp
  from Cons.IH[OF this] have
    "bindFields ?stmt (int (Suc j) + 1) dat =
     Inr (?stmt\<lparr>stmt_params := take (Suc j) (?ps[j := bound_value v]) @
                    map (bound_value \<circ> snd) dat @ drop (Suc j + length dat) (?ps[j := bound_value v])\<rparr>)"
    by simp
  moreover have "take (Suc j) (?ps[j := bound_value v]) = take j ?ps @ [bound_value v]"
    using j by (simp add: take_Suc_conv_app_nth)
  moreover have "drop (Suc j + length dat) (?ps[j := bound_value v]) = drop (j + length (kv # dat)) ?ps"
    by simp
  ultimately show ?case
    using step by (simp add: kv)
qed

lemma bindFields_all:
  assumes "length (stmt_params stmt) = length dat"
  shows "bindFields stmt 1 dat = Inr (stmt\<lparr>stmt_params := map (bound_value \<circ> snd) dat\<rparr>)"
  using bindFields_params[of 0 dat stmt] assms by simp

subsection \<open>Decoding\<close>

lemma decodeColumns_fields:
  assumes "stmt_row stmt = Some row" and "\<forall>i\<in>set is. i < length (stmt_columns stmt)"
  shows "decodeColumns stmt is acc =
         decode_fields (map (\<lambda>i. (stmt_columns stmt ! i, nth_value row i)) is) acc"
  using assms(2)
proof (induction "is" arbitrary: acc)
  case Nil
  show ?case by simp
next
  case (Cons i "is")
  then show ?case
    using assms(1)
    by (cases "nth_value row i")
       (simp_all add: Let_def sqlite3_column_type_def sqlite3_column_name_def column_value_def
          sqlite3_column_int_def sqlite3_column_double_def sqlite3_column_text_def)
qed

lemma decodeRow_record:
  "stmt_row stmt = Some row \<Longrightarrow> decodeRow stmt = record_of_row (stmt_columns stmt) row"
  by (simp add: decodeRow_def record_of_row_def sqlite3_column_count_def decodeColumns_fields)

lemma decode_fields_not_other:
  "decode_fields fs acc = Inl e \<Longrightarrow> \<exists>c. e = unsupported_column c"
  by (induction fs acc rule: decode_fields.induct) (auto split: option.splits)

lemma decode_fields_Inl:
  "(\<exists>c. decode_fields fs acc = Inl (unsupported_column c)) \<longleftrightarrow>
   (\<exists>v\<in>snd ` set fs. decode_value v = None)"
  by (induction fs acc rule: decode_fields.induct) (auto split: option.splits)

lemma decode_fields_map_of:
  "decode_fields fs acc = Inr rd \<Longrightarrow>
   map_of rd = map_of acc ++ map_of (rev (map (\<lambda>(n, v). (n, the (decode_value v))) fs))"
proof (induction fs acc rule: decode_fields.induct)
  case (1 acc)
  then show ?case by simp
next
  case (2 n v rest acc)
  then obtain f where f: "decode_value v = Some f" by (auto split: option.splits)
  with 2 have "map_of rd = map_of (AList.update n f acc) ++
      map_of (rev (map (\<lambda>(n, v). (n, the (decode_value v))) rest))"
    by simp
  then show ?case
    by (simp add: f update_conv' map_add_upd_left fun_eq_iff map_add_def split: option.splits)
qed

lemma record_of_row_lookup:
  assumes "record_of_row names row = Inr rd" and "distinct names" and "i < length names"
  shows "map_of rd (names ! i) = decode_value (nth_value row i)"
    and "decode_value (nth_value row i) \<noteq> None"
proof -
  let ?fs = "map (\<lambda>i. (names ! i, nth_value row i)) [0..<length names]"
  have rd: "decode_fields ?fs [] = Inr rd"
    using assms(1) by (simp add: record_of_row_def)
  have all: "\<forall>v\<in>snd ` set ?fs. decode_value v \<noteq> None"
    using decode_fields_Inl[of ?fs "[]"] rd by auto
  have "nth_value row i \<in> snd ` set ?fs"
    using assms(3) by force
  with all show some: "decode_value (nth_value row i) \<noteq> None" by (rule bspec)
  let ?al = "map (\<lambda>(n, v). (n, the (decode_value v))) ?fs"
  have keys: "map fst ?al = names"
    by (simp add: comp_def map_nth)
  then have "distinct (map fst (rev ?al))"
    using assms(2) by (simp add: rev_map[symmetric] del: map_map)
  moreover have "(names ! i, the (decode_value (nth_value row i))) \<in> set (rev ?al)"
    using assms(3) by force
  ultimately have "map_of (rev ?al) (names ! i) = Some (the (decode_value (nth_value row i)))"
    by (rule map_of_is_SomeI)
  then show "map_of rd (names ! i) = decode_value (nth_value row i)"
    using decode_fields_map_of[OF rd] some by auto
qed

lemma record_of_row_fails:
  "(\<exists>c. record_of_row names row = Inl (unsupported_column c)) \<longleftrightarrow>
   (\<exists>i<length names. decode_value (nth_value row i) = None)"
  unfolding record_of_row_def decode_fields_Inl by force

lemma record_of_row_cases:
  obtains rd where "record_of_row names row = Inr rd"
  | c where "record_of_row names row = Inl (unsupported_column c)"
  using decode_fields_not_other[of _ "[]"]
  by (cases "record_of_row names row") (auto simp: record_of_row_def)

subsection \<open>Preparing and stepping\<close>

lemma prepare_parsed:
  "parse_sql text = Some s \<Longrightarrow> statement_ok db s \<Longrightarrow>
   sqlite3_prepare_v2 db text =
   Some \<lparr>stmt_sql = s, stmt_params = replicate (param_count s) SqlNull,
         stmt_columns = result_columns db s, stmt_row = None, stmt_pending = None\<rparr>"
  by (simp add: sqlite3_prepare_v2_def)

lemma prepare_unparsed: "parse_sql text = None \<Longrightarrow> sqlite3_prepare_v2 db text = None"
  by (simp add: sqlite3_prepare_v2_def)

lemma prepare_sql:
  "sqlite3_prepare_v2 db text = Some stmt \<Longrightarrow>
   parse_sql text = Some (stmt_sql stmt) \<and> statement_ok db (stmt_sql stmt)"
  by (auto simp: sqlite3_prepare_v2_def split: option.splits if_splits)

lemma where_holds_conds:
  "where_holds db tb (Conds (map fst dat)) (map (bound_value \<circ> snd) dat) row = row_matches tb dat row"
  by (induction dat) (simp_all add: row_matches_def case_prod_beta cong: option.case_cong)

lemma step_select_first:
  assumes "stmt_sql stmt = Select t w" and "stmt_pending stmt = None"
    and "find_table db t = Some tb"
  shows "sqlite3_step db stmt =
    (case filter (where_holds db tb w (stmt_params stmt)) (tbl_rows tb) of
       [] \<Rightarrow> (SQLITE_DONE, db, stmt\<lparr>stmt_row := None, stmt_pending := Some []\<rparr>)
     | r # rs \<Rightarrow> (SQLITE_ROW, db, stmt\<lparr>stmt_row := Some r, stmt_pending := Some rs\<rparr>))"
  using assms by (simp add: sqlite3_step_def deliver_def Let_def split: list.splits)

lemma step_select_next:
  assumes "stmt_sql stmt = Select t w" and "stmt_pending stmt = Some rows"
  shows "sqlite3_step db stmt =
    (case rows of
       [] \<Rightarrow> (SQLITE_DONE, db, stmt\<lparr>stmt_row := None, stmt_pending := Some []\<rparr>)
     | r # rs \<Rightarrow> (SQLITE_ROW, db, stmt\<lparr>stmt_row := Some r, stmt_pending := Some rs\<rparr>))"
  using assms by (simp add: sqlite3_step_def deliver_def split: list.splits)

subsection \<open>What the read operations return\<close>

lemma getRecord_result:
  assumes "sql_name tbl" and "find_table db tbl = Some tb" and "dat \<noteq> []"
    and "list_all sql_name (map fst dat)" and "list_all (has_column tb) (map fst dat)"
  shows "getRecord db tbl dat =
         (first_record tbl (column_names tb) (filter (row_matches tb dat) (tbl_rows tb)), db)"
proof -
  let ?s = "Select tbl (Conds (map fst dat))"
  let ?stmt = "\<lparr>stmt_sql = ?s, stmt_params = replicate (length dat) SqlNull,
                stmt_columns = column_names tb, stmt_row = None, stmt_pending = None\<rparr>"
  let ?bound = "\<lparr>stmt_sql = ?s, stmt_params = map (bound_value \<circ> snd) dat,
                 stmt_columns = column_names tb, stmt_row = None, stmt_pending = None\<rparr>"
  have "parse_sql (c_str (getRecord_query tbl dat)) = Some ?s"
    using assms by (simp add: parse_getRecord_query)
  moreover have "statement_ok db ?s"
    using assms by simp
  ultimately have prep: "sqlite3_prepare_v2 db (c_str (getRecord_query tbl dat)) = Some ?stmt"
    using assms(2) by (simp add: prepare_parsed column_names_def)
  have bind: "bindFields ?stmt 1 dat = Inr ?bound"
    using bindFields_all[of ?stmt dat] by simp
  have holds: "where_holds db tb (Conds (map fst dat)) (map (bound_value \<circ> snd) dat) =
               row_matches tb dat"
    by (rule ext) (rule where_holds_conds)
  have step: "sqlite3_step db ?bound =
    (case filter (row_matches tb dat) (tbl_rows tb) of
       [] \<Rightarrow> (SQLITE_DONE, db, ?bound\<lparr>stmt_row := None, stmt_pending := Some []\<rparr>)
     | r # rs \<Rightarrow> (SQLITE_ROW, db, ?bound\<lparr>stmt_row := Some r, stmt_pending := Some rs\<rparr>))"
    using step_select_first[of ?bound tbl "Conds (map fst dat)" db tb] assms(2)
    by (simp add: holds)
  show ?thesis
    by (simp add: getRecord_def prep bind step first_record_def decodeRow_record
          split: list.split sum.split)
qed

lemma nth_value_head: "nth_value (x # xs) 0 = x"
  by (simp add: nth_value_def)

lemma bind_pseudoId:
  "stmt_params stmt = [SqlNull] \<Longrightarrow>
   sqlite3_bind_int stmt 1 k = (SQLITE_OK, stmt\<lparr>stmt_params := [SqlInteger (sint k)]\<rparr>)"
  by (simp add: sqlite3_bind_int_def sqlite3_bind_def)

lemma getRecordByPseudoId_result:
  assumes "sql_name tbl" and "find_table db tbl = Some tb"
    and "column_index (tbl_columns tb) ''id'' = Some j" and "\<not> same_name tbl ''PseudoIDs''"
  shows "getRecordByPseudoId db tbl k =
         (first_record tbl (column_names tb)
            (filter (\<lambda>row. sql_eq (nth_value row j) (id_of_rank db tbl (SqlInteger (sint k))))
               (tbl_rows tb)), db)"
proof -
  let ?s = "Select tbl (IdOfRank tbl)"
  let ?stmt = "\<lparr>stmt_sql = ?s, stmt_params = [SqlNull],
                stmt_columns = column_names tb, stmt_row = None, stmt_pending = None\<rparr>"
  let ?bound = "\<lparr>stmt_sql = ?s, stmt_params = [SqlInteger (sint k)],
                 stmt_columns = column_names tb, stmt_row = None, stmt_pending = None\<rparr>"
  have "parse_sql (c_str (getRecordByPseudoId_query tbl)) = Some ?s"
    using assms(1) by (rule parse_getRecordByPseudoId_query)
  moreover have "statement_ok db ?s"
    using assms by (simp add: has_column_def)
  ultimately have prep: "sqlite3_prepare_v2 db (c_str (getRecordByPseudoId_query tbl)) = Some ?stmt"
    using assms(2) by (simp add: prepare_parsed column_names_def)
  have bind: "sqlite3_bind_int ?stmt 1 k = (SQLITE_OK, ?bound)"
    by (simp add: bind_pseudoId)
  have step: "sqlite3_step db ?bound =
    (case filter (\<lambda>row. sql_eq (nth_value row j) (id_of_rank db tbl (SqlInteger (sint k))))
            (tbl_rows tb) of
       [] \<Rightarrow> (SQLITE_DONE, db, ?bound\<lparr>stmt_row := None, stmt_pending := Some []\<rparr>)
     | r # rs \<Rightarrow> (SQLITE_ROW, db, ?bound\<lparr>stmt_row := Some r, stmt_pending := Some rs\<rparr>))"
  proof -
    have "where_holds db tb (IdOfRank tbl) [SqlInteger (sint k)] =
          (\<lambda>row. sql_eq (nth_value row j) (id_of_rank db tbl (SqlInteger (sint k))))"
      using assms(3) by (intro ext) (simp add: nth_value_head)
    then show ?thesis
      using step_select_first[of ?bound tbl "IdOfRank tbl" db tb] assms(2) by simp
  qed
  show ?thesis
    by (simp add: getRecordByPseudoId_def prep bind step first_record_def decodeRow_record
          split: list.split sum.split)
qed

lemma records_loop_pending:
  assumes "stmt_sql stmt = Select t w" and "stmt_pending stmt = Some rows"
  shows "records_loop db stmt tbl acc =
         (collect_records tbl (map (record_of_row (stmt_columns stmt)) rows) acc, db)"
  using assms
proof (induction rows arbitrary: stmt acc)
  case Nil
  then show ?case
    by (subst records_loop.simps) (simp add: step_select_next)
next
  case (Cons r rs)
  let ?next = "stmt\<lparr>stmt_row := Some r, stmt_pending := Some rs\<rparr>"
  have step: "sqlite3_step db stmt = (SQLITE_ROW, db, ?next)"
    using Cons.prems by (simp add: step_select_next)
  have dec: "decodeRow ?next = record_of_row (stmt_columns stmt) r"
    by (simp add: decodeRow_record)
  show ?case
  proof (cases "record_of_row (stmt_columns stmt) r")
    case (Inl e)
    then show ?thesis
      by (subst records_loop.simps) (simp add: step dec)
  next
    case (Inr d)
    have "records_loop db ?next tbl (acc @ [\<lparr>data = d, table = tbl\<rparr>]) =
          (collect_records tbl (map (record_of_row (stmt_columns ?next)) rs)
             (acc @ [\<lparr>data = d, table = tbl\<rparr>]), db)"
      using Cons.prems by (intro Cons.IH) simp_all
    with Inr show ?thesis
      by (subst records_loop.simps) (simp add: step dec)
  qed
qed

lemma getAllRecords_result:
  assumes "sql_name tbl" and "find_table db tbl = Some tb"
  shows "getAllRecords db tbl =
         (collect_records tbl (map (record_of_row (column_names tb)) (tbl_rows tb)) [], db)"
proof -
  let ?s = "Select tbl NoWhere"
  let ?stmt = "\<lparr>stmt_sql = ?s, stmt_params = [],
                stmt_columns = column_names tb, stmt_row = None, stmt_pending = None\<rparr>"
  let ?started = "?stmt\<lparr>stmt_pending := Some (tbl_rows tb)\<rparr>"
  have "parse_sql (c_str (getAllRecords_query tbl)) = Some ?s"
    using assms(1) by (rule parse_getAllRecords_query)
  moreover have "statement_ok db ?s"
    using assms by simp
  ultimately have prep: "sqlite3_prepare_v2 db (c_str (getAllRecords_query tbl)) = Some ?stmt"
    using assms(2) by (simp add: prepare_parsed column_names_def)
  have "sqlite3_step db ?stmt = sqlite3_step db ?started"
    using assms(2) by (simp add: step_select_first step_select_next split: list.split)
  then have "records_loop db ?stmt tbl [] = records_loop db ?started tbl []"
    by (subst records_loop.simps, subst (2) records_loop.simps) simp
  also have "\<dots> = (collect_records tbl (map (record_of_row (stmt_columns ?started)) (tbl_rows tb)) [], db)"
    by (rule records_loop_pending) simp_all
  finally show ?thesis
    by (simp add: getAllRecords_def prep)
qed

lemma collect_records_Inr:
  "collect_records tbl xs acc = Inr recs \<Longrightarrow>
   \<exists>ds. xs = map Inr ds \<and> recs = acc @ map (\<lambda>d. \<lparr>data = d, table = tbl\<rparr>) ds"
proof (induction tbl xs acc rule: collect_records.induct)
  case (1 tbl acc)
  then show ?case by simp
next
  case (2 tbl e rs acc)
  then show ?case by simp
next
  case (3 tbl d rs acc)
  then obtain ds where "rs = map Inr ds"
    and "recs = (acc @ [\<lparr>data = d, table = tbl\<rparr>]) @ map (\<lambda>d. \<lparr>data = d, table = tbl\<rparr>) ds"
    by auto
  then have "Inr d # rs = map Inr (d # ds) \<and>
             recs = acc @ map (\<lambda>d. \<lparr>data = d, table = tbl\<rparr>) (d # ds)"
    by simp
  then show ?case by (intro exI)
qed

subsection \<open>The rank of a row by its id\<close>

lemma sql_eq_null [simp]: "sql_eq v SqlNull = False"
  by (cases v) simp_all

lemma insert_value_length [simp]: "length (insert_value x ys) = Suc (length ys)"
  by (induction ys) simp_all

lemma insert_value_set [simp]: "set (insert_value x ys) = insert x (set ys)"
  by (induction ys) auto

lemma sort_values_length [simp]: "length (sort_values xs) = length xs"
  by (induction xs) (simp_all add: sort_values_def)

lemma sort_values_set [simp]: "set (sort_values xs) = set xs"
  by (induction xs) (simp_all add: sort_values_def)

lemma filter_rank:
  "filter (\<lambda>(n, v). int n = m) (zip [1..<Suc (length vs)] vs) =
   (if 1 \<le> m \<and> m \<le> int (length vs) then [(nat m, vs ! (nat m - 1))] else [])"
proof (induction vs rule: rev_induct)
  case Nil
  show ?case by simp
next
  case (snoc v vs)
  have "zip ([1..<Suc (length vs)] @ [Suc (length vs)]) (vs @ [v]) =
        zip [1..<Suc (length vs)] vs @ zip [Suc (length vs)] [v]"
    by (rule zip_append) (simp del: upt_Suc)
  moreover have "[1..<Suc (length (vs @ [v]))] = [1..<Suc (length vs)] @ [Suc (length vs)]"
    by simp
  ultimately have zip: "zip [1..<Suc (length (vs @ [v]))] (vs @ [v]) =
             zip [1..<Suc (length vs)] vs @ [(Suc (length vs), v)]"
    by (simp del: upt_Suc)
  consider "m = int (Suc (length vs))" | "1 \<le> m \<and> m \<le> int (length vs)"
    | "\<not> (1 \<le> m \<and> m \<le> int (Suc (length vs)))"
    by linarith
  then show ?case
  proof cases
    case 1
    then show ?thesis
      unfolding zip using snoc.IH by (simp add: nat_add_distrib)
  next
    case 2
    then have "nat m - 1 < length vs" by linarith
    then have "(vs @ [v]) ! (nat m - 1) = vs ! (nat m - 1)"
      by (simp add: nth_append)
    with 2 show ?thesis
      unfolding zip using snoc.IH by simp
  next
    case 3
    then show ?thesis
      unfolding zip using snoc.IH by auto
  qed
qed

lemma id_values_column:
  "column_index (tbl_columns tb) ''id'' = Some j \<Longrightarrow>
   id_values tb = map (\<lambda>row. nth_value row j) (tbl_rows tb)"
  by (simp add: id_values_def)

lemma id_of_rank_kth:
  assumes "find_table db tbl = Some tb" and "column_index (tbl_columns tb) ''id'' = Some j"
  shows "id_of_rank db tbl (SqlInteger m) = kth_id tb m"
proof -
  let ?vs = "sort_values (id_values tb)"
  have len: "length (id_values tb) = length (tbl_rows tb)"
    using assms(2) by (simp add: id_values_column)
  have "id_of_rank db tbl (SqlInteger m) =
        (case filter (\<lambda>(n, v). int n = m) (zip [1..<Suc (length ?vs)] ?vs) of
           [] \<Rightarrow> SqlNull | (n, v) # _ \<Rightarrow> v)"
    using assms by (simp add: id_of_rank_def id_values_column)
  also have "\<dots> = kth_id tb m"
    unfolding filter_rank by (simp add: kth_id_def len)
  finally show ?thesis .
qed

lemma id_equals_column:
  "column_index (tbl_columns tb) ''id'' = Some j \<Longrightarrow>
   id_equals tb v = (\<lambda>row. sql_eq (nth_value row j) v)"
  by (intro ext) (simp add: id_equals_def)

lemma id_equals_null [simp]: "id_equals tb SqlNull row = False"
  by (simp add: id_equals_def split: option.splits)

lemma sql_eq_refl: "v \<noteq> SqlNull \<Longrightarrow> sql_eq v v"
  by (cases v) simp_all

lemma sql_eq_sym: "sql_eq a b \<longleftrightarrow> sql_eq b a"
  by (cases a; cases b) auto

lemma unique_rows:
  "all_differ (map f rows) \<Longrightarrow> i < length rows \<Longrightarrow>
   filter (\<lambda>row. sql_eq (f row) (f (rows ! i))) rows = [rows ! i] \<and>
   filter (\<lambda>row. \<not> sql_eq (f row) (f (rows ! i))) rows = take i rows @ drop (Suc i) rows"
proof (induction rows arbitrary: i)
  case Nil
  then show ?case by simp
next
  case (Cons x xs)
  from Cons.prems(1) have x: "f x \<noteq> SqlNull" and xs: "\<forall>y\<in>set xs. \<not> sql_eq (f x) (f y)"
    and rest: "all_differ (map f xs)"
    by (simp_all add: list_all_iff)
  from xs have xs': "\<forall>y\<in>set xs. \<not> sql_eq (f y) (f x)"
    using sql_eq_sym by blast
  show ?case
  proof (cases i)
    case 0
    from xs' have "filter (\<lambda>row. sql_eq (f row) (f x)) xs = []"
      by (simp add: filter_empty_conv)
    moreover from xs' have "filter (\<lambda>row. \<not> sql_eq (f row) (f x)) xs = xs"
      by (simp add: filter_id_conv)
    ultimately show ?thesis
      using 0 x by (simp add: sql_eq_refl)
  next
    case (Suc i')
    with Cons.prems(2) have i': "i' < length xs" by simp
    with xs have "\<not> sql_eq (f x) (f (xs ! i'))" by simp
    with Suc Cons.IH[OF rest i'] show ?thesis by simp
  qed
qed

lemma all_differ_distinct: "all_differ vs \<Longrightarrow> distinct vs"
proof (induction vs)
  case Nil
  show ?case by simp
next
  case (Cons v vs)
  then have "\<forall>w\<in>set vs. \<not> sql_eq v w" and "v \<noteq> SqlNull"
    by (simp_all add: list_all_iff)
  then have "v \<notin> set vs"
    using sql_eq_refl by blast
  with Cons show ?case by simp
qed

lemma kth_id_row:
  assumes "column_index (tbl_columns tb) ''id'' = Some j"
    and "1 \<le> k" and "k \<le> int (length (tbl_rows tb))"
  obtains i where "i < length (tbl_rows tb)" and "id_values tb ! i = kth_id tb k"
proof -
  have len: "length (id_values tb) = length (tbl_rows tb)"
    using assms(1) by (simp add: id_values_column)
  with assms(2,3) have "nat k - 1 < length (sort_values (id_values tb))" by simp
  then have "sort_values (id_values tb) ! (nat k - 1) \<in> set (sort_values (id_values tb))"
    by (rule nth_mem)
  then have "kth_id tb k \<in> set (id_values tb)"
    using assms(2,3) by (simp add: kth_id_def)
  then obtain i where "i < length (id_values tb)" and "id_values tb ! i = kth_id tb k"
    by (auto simp: in_set_conv_nth)
  with len show ?thesis by (intro that[of i]) simp_all
qed

lemma kth_id_in_order:
  assumes "id_is_unique tb" and "id_in_row_order tb"
    and "i < length (tbl_rows tb)" and "id_values tb ! i = kth_id tb k"
    and "1 \<le> k" and "k \<le> int (length (tbl_rows tb))"
  shows "i = nat k - 1"
proof -
  from assms(1) obtain j where j: "column_index (tbl_columns tb) ''id'' = Some j"
    by (auto simp: id_is_unique_def has_column_def)
  have len: "length (id_values tb) = length (tbl_rows tb)"
    using j by (simp add: id_values_column)
  from assms(2,5,6) have "kth_id tb k = id_values tb ! (nat k - 1)"
    by (simp add: kth_id_def id_in_row_order_def)
  with assms(4) have "id_values tb ! i = id_values tb ! (nat k - 1)" by simp
  moreover have "distinct (id_values tb)"
    using assms(1) by (simp add: id_is_unique_def all_differ_distinct)
  moreover have "nat k - 1 < length (id_values tb)"
    using assms(5,6) len by linarith
  ultimately show ?thesis
    using assms(3) len by (simp add: nth_eq_iff_index_eq)
qed

lemma ranked_rows_unique:
  assumes "id_is_unique tb" and "i < length (tbl_rows tb)" and "id_values tb ! i = v"
  shows "filter (id_equals tb v) (tbl_rows tb) = [tbl_rows tb ! i]"
    and "filter (\<lambda>row. \<not> id_equals tb v row) (tbl_rows tb) =
         take i (tbl_rows tb) @ drop (Suc i) (tbl_rows tb)"
proof -
  from assms(1) obtain j where j: "column_index (tbl_columns tb) ''id'' = Some j"
    by (auto simp: id_is_unique_def has_column_def)
  let ?f = "\<lambda>row. nth_value row j"
  have ids: "id_values tb = map ?f (tbl_rows tb)"
    using j by (rule id_values_column)
  with assms(1) have differ: "all_differ (map ?f (tbl_rows tb))"
    by (simp add: id_is_unique_def)
  have v: "v = ?f (tbl_rows tb ! i)"
    using assms(2,3) ids by simp
  show "filter (id_equals tb v) (tbl_rows tb) = [tbl_rows tb ! i]"
    using unique_rows[OF differ assms(2)] by (simp add: id_equals_column[OF j] v)
  show "filter (\<lambda>row. \<not> id_equals tb v row) (tbl_rows tb) =
         take i (tbl_rows tb) @ drop (Suc i) (tbl_rows tb)"
    using unique_rows[OF differ assms(2)] by (simp add: id_equals_column[OF j] v)
qed

subsection \<open>Deleting rows\<close>

lemma delete_rows_find_same:
  "find_table db t = Some tb \<Longrightarrow>
   find_table (delete_rows P t db) t = Some (tb\<lparr>tbl_rows := filter (\<lambda>r. \<not> P r) (tbl_rows tb)\<rparr>)"
  by (induction db) (auto simp: find_table_def)

lemma delete_rows_find_other:
  "\<not> same_name n t \<Longrightarrow> find_table (delete_rows P t db) n = find_table db n"
proof (induction db)
  case Nil
  show ?case by simp
next
  case (Cons x db)
  show ?case
  proof (cases "same_name (tbl_name x) t")
    case True
    with Cons.prems have "\<not> same_name (tbl_name x) n"
      using same_name_sym same_name_trans by blast
    with True show ?thesis by (simp add: find_table_def)
  next
    case False
    with Cons show ?thesis by (simp add: find_table_def)
  qed
qed

lemma delete_rows_none:
  "find_table db t = Some tb \<Longrightarrow> filter (\<lambda>r. \<not> P r) (tbl_rows tb) = tbl_rows tb \<Longrightarrow>
   delete_rows P t db = db"
  by (induction db) (auto simp: find_table_def)

lemma removeRecordByPseudoId_result:
  assumes "sql_name tbl" and "find_table db tbl = Some tb"
    and "column_index (tbl_columns tb) ''id'' = Some j" and "\<not> same_name tbl ''PseudoIDs''"
  shows "removeRecordByPseudoId db tbl k =
         (Inr (), delete_rows
                    (\<lambda>row. sql_eq (nth_value row j) (id_of_rank db tbl (SqlInteger (sint k))))
                    tbl db)"
proof -
  let ?s = "Delete tbl (IdOfRank tbl)"
  let ?stmt = "\<lparr>stmt_sql = ?s, stmt_params = [SqlNull],
                stmt_columns = [], stmt_row = None, stmt_pending = None\<rparr>"
  let ?bound = "\<lparr>stmt_sql = ?s, stmt_params = [SqlInteger (sint k)],
                 stmt_columns = [], stmt_row = None, stmt_pending = None\<rparr>"
  have "parse_sql (c_str (removeRecordByPseudoId_query tbl)) = Some ?s"
    using assms(1) by (rule parse_removeRecordByPseudoId_query)
  moreover have "statement_ok db ?s"
    using assms by (simp add: has_column_def)
  ultimately have prep: "sqlite3_prepare_v2 db (c_str (removeRecordByPseudoId_query tbl)) = Some ?stmt"
    by (simp add: prepare_parsed)
  have bind: "sqlite3_bind_int ?stmt 1 k = (SQLITE_OK, ?bound)"
    by (simp add: bind_pseudoId)
  have "where_holds db tb (IdOfRank tbl) [SqlInteger (sint k)] =
        (\<lambda>row. sql_eq (nth_value row j) (id_of_rank db tbl (SqlInteger (sint k))))"
    using assms(3) by (intro ext) (simp add: nth_value_head)
  then have step: "sqlite3_step db ?bound =
    (SQLITE_DONE,
     delete_rows (\<lambda>row. sql_eq (nth_value row j) (id_of_rank db tbl (SqlInteger (sint k)))) tbl db,
     ?bound)"
    using assms(2) by (simp add: sqlite3_step_def)
  show ?thesis
    by (simp add: removeRecordByPseudoId_def prep bind step)
qed

subsection \<open>The pseudo-ID operations by rank\<close>

lemma getRecordByPseudoId_ranked:
  assumes "sql_name tbl" and "find_table db tbl = Some tb"
    and "has_column tb ''id''" and "\<not> same_name tbl ''PseudoIDs''"
  shows "getRecordByPseudoId db tbl k =
         (first_record tbl (column_names tb)
            (filter (id_equals tb (kth_id tb (sint k))) (tbl_rows tb)), db)"
proof -
  from assms(3) obtain j where j: "column_index (tbl_columns tb) ''id'' = Some j"
    by (auto simp: has_column_def)
  show ?thesis
    by (simp add: getRecordByPseudoId_result[OF assms(1,2) j assms(4)]
          id_of_rank_kth[OF assms(2) j] id_equals_column[OF j])
qed

lemma removeRecordByPseudoId_ranked:
  assumes "sql_name tbl" and "find_table db tbl = Some tb"
    and "has_column tb ''id''" and "\<not> same_name tbl ''PseudoIDs''"
  shows "removeRecordByPseudoId db tbl k =
         (Inr (), delete_rows (id_equals tb (kth_id tb (sint k))) tbl db)"
proof -
  from assms(3) obtain j where j: "column_index (tbl_columns tb) ''id'' = Some j"
    by (auto simp: has_column_def)
  show ?thesis
    by (simp add: removeRecordByPseudoId_result[OF assms(1,2) j assms(4)]
          id_of_rank_kth[OF assms(2) j] id_equals_column[OF j])
qed

lemma getAllRecords_nth:
  assumes "sql_name tbl" and "find_table db tbl = Some tb"
    and "getAllRecords db tbl = (Inr records, db')"
  shows "length records = length (tbl_rows tb)"
    and "i < length (tbl_rows tb) \<Longrightarrow>
         first_record tbl (column_names tb) (tbl_rows tb ! i # rest) = Inr (records ! i)"
proof -
  let ?names = "column_names tb"
  from assms(3) have "collect_records tbl (map (record_of_row ?names) (tbl_rows tb)) [] = Inr records"
    by (simp add: getAllRecords_result[OF assms(1,2)])
  then obtain ds where ds: "map (record_of_row ?names) (tbl_rows tb) = map Inr ds"
    and recs: "records = map (\<lambda>d. \<lparr>data = d, table = tbl\<rparr>) ds"
    using collect_records_Inr by fastforce
  from ds have lds: "length ds = length (tbl_rows tb)" by (metis length_map)
  with recs show "length records = length (tbl_rows tb)" by simp
  assume i: "i < length (tbl_rows tb)"
  have "record_of_row ?names (tbl_rows tb ! i) = Inr (ds ! i)"
    using ds i lds by (metis nth_map)
  moreover have "records ! i = \<lparr>data = ds ! i, table = tbl\<rparr>"
    using recs i lds by simp
  ultimately show "first_record tbl ?names (tbl_rows tb ! i # rest) = Inr (records ! i)"
    by (simp add: first_record_def)
qed

subsection \<open>Decoded rows\<close>

lemma decode_fields_Inl_name:
  "decode_fields fs acc = Inl e \<Longrightarrow>
   \<exists>p\<in>set fs. decode_value (snd p) = None \<and> e = unsupported_column (fst p)"
  by (induction fs acc rule: decode_fields.induct) (auto split: option.splits)

lemma decoded_row_record:
  assumes "distinct names"
  shows "decoded_row tbl names row
           (case record_of_row names row of Inl e \<Rightarrow> Inl e | Inr d \<Rightarrow> Inr \<lparr>data = d, table = tbl\<rparr>)"
proof (cases "record_of_row names row")
  case (Inl e)
  then have "decode_fields (map (\<lambda>i. (names ! i, nth_value row i)) [0..<length names]) [] = Inl e"
    by (simp add: record_of_row_def)
  from decode_fields_Inl_name[OF this]
  have "\<exists>i\<in>set [0..<length names].
               decode_value (nth_value row i) = None \<and> e = unsupported_column (names ! i)"
    by auto
  with Inl show ?thesis
    by (simp add: decoded_row_def list_ex_iff)
next
  case (Inr d)
  have "\<forall>i\<in>set [0..<length names].
          decode_value (nth_value row i) \<noteq> None \<and>
          map_of d (names ! i) = decode_value (nth_value row i)"
    using record_of_row_lookup[OF Inr assms] by simp
  with Inr show ?thesis
    by (simp add: decoded_row_def list_all_iff)
qed

lemma decoded_row_first:
  assumes "distinct names"
  shows "decoded_row tbl names row (first_record tbl names (row # rest))"
  using decoded_row_record[OF assms, of tbl row] by (simp add: first_record_def)

lemma first_record_not_found:
  "first_record tbl names rows = Inl record_not_found \<longleftrightarrow> rows = []"
proof (cases rows)
  case Nil
  then show ?thesis by (simp add: first_record_def)
next
  case (Cons row rest)
  show ?thesis
  proof (cases "record_of_row names row")
    case (Inr rd)
    with Cons show ?thesis by (simp add: first_record_def)
  next
    case (Inl e)
    then have "decode_fields (map (\<lambda>i. (names ! i, nth_value row i)) [0..<length names]) [] = Inl e"
      by (simp add: record_of_row_def)
    then obtain c where "e = unsupported_column c"
      using decode_fields_not_other by blast
    with Inl Cons show ?thesis by (simp add: first_record_def)
  qed
qed

lemma collect_records_Inl:
  "collect_records tbl xs acc = Inl e \<Longrightarrow> Inl e \<in> set xs"
  by (induction tbl xs acc rule: collect_records.induct) auto

subsection \<open>Statements that only read\<close>





subsection \<open>Creating a table that exists\<close>

lemma find_table_append:
  "find_table db n = None \<Longrightarrow> find_table (db @ [tb]) n = (if same_name (tbl_name tb) n then Some tb else None)"
  by (induction db) (auto simp: find_table_def split: if_splits)

lemma create_step:
  assumes "stmt_sql stmt = Create True n cols" and "sqlite3_step db stmt = (SQLITE_DONE, db1, stmt')"
  shows "find_table db1 n \<noteq> None"
proof (cases "find_table db n")
  case None
  with assms have "db1 = db @ [\<lparr>tbl_name = n, tbl_columns = cols, tbl_rows = []\<rparr>]"
    by (simp add: sqlite3_step_def)
  with None show ?thesis by (simp add: find_table_append)
next
  case (Some tb)
  with assms have "db1 = db" by (simp add: sqlite3_step_def)
  with Some show ?thesis by simp
qed

lemma parse_createTable_name:
  assumes "sql_name tbl" and "parse_sql (c_str (createTable_query tbl columns)) = Some s"
  shows "\<exists>cols. s = Create True tbl cols"
proof -
  have "c_str (createTable_query tbl columns) =
        ''CREATE TABLE IF NOT EXISTS '' @ c_str (tbl @ '' ('' @ columnDefinitions_loop [] columns @ '')'')"
    unfolding createTable_query_def by (rule c_str_append) simp
  also have "c_str (tbl @ '' ('' @ columnDefinitions_loop [] columns @ '')'') =
        tbl @ c_str ('' ('' @ columnDefinitions_loop [] columns @ '')'')"
    using assms(1) by (intro c_str_append) simp
  also have "c_str ('' ('' @ columnDefinitions_loop [] columns @ '')'') =
        '' ('' @ c_str (columnDefinitions_loop [] columns @ '')'')"
    by (rule c_str_append) simp
  finally have "c_str (createTable_query tbl columns) =
        ''CREATE TABLE IF NOT EXISTS '' @ tbl @ '' ('' @
        c_str (columnDefinitions_loop [] columns @ '')'')" .
  with assms obtain ts where
    "parse_table_body True (Word tbl # LP # takeWhile (\<lambda>t. t \<noteq> SEMI) ts) = Some s"
    by (auto simp: parse_sql_def lex_def char_defs parse_statement_def parse_create_def upper_defs
             split: option.splits)
  with assms(1) show ?thesis
    by (auto simp: parse_table_body_def split: if_splits)
qed

lemma create_existing:
  assumes "columns \<noteq> []"
    and "parse_sql (c_str (createTable_query tbl columns)) = Some (Create True n cols)"
    and "object_name_ok n" and "find_table d n = Some tb"
  shows "createTable d tbl columns = (Inr (), d)"
proof -
  let ?stmt = "\<lparr>stmt_sql = Create True n cols, stmt_params = [], stmt_columns = [],
                stmt_row = None, stmt_pending = None\<rparr>"
  have "sqlite3_prepare_v2 d (c_str (createTable_query tbl columns)) = Some ?stmt"
    using assms(2,3,4) by (simp add: sqlite3_prepare_v2_def)
  moreover have "sqlite3_step d ?stmt = (SQLITE_DONE, d, ?stmt)"
    using assms(4) by (simp add: sqlite3_step_def)
  ultimately show ?thesis
    using assms(1) by (simp add: createTable_def)
qed

subsection \<open>Inserting a row\<close>

lemma offered_bound:
  "offered (map fst dat) (map (bound_value \<circ> snd) dat) c = field_for dat c"
  by (induction dat) (auto simp: offered_def field_for_def)

lemma step_insert:
  "stmt_sql stmt = Insert t cols n \<Longrightarrow>
   sqlite3_step db stmt =
   (case insert_row db t cols (stmt_params stmt) of
      None \<Rightarrow> (SQLITE_ERROR, db, stmt)
    | Some db' \<Rightarrow> (SQLITE_DONE, db', stmt))"
  by (simp add: sqlite3_step_def)

lemma addRecord_result:
  assumes "sql_name (table r)" and "list_all sql_name (map fst (data r))" and "data r \<noteq> []"
    and "find_table db (table r) = Some tb" and "list_all (has_column tb) (map fst (data r))"
  shows "addRecord db r =
         (case sqlite3_step db
                 \<lparr>stmt_sql = Insert (table r) (map fst (data r)) (length (data r)),
                  stmt_params = map (bound_value \<circ> snd) (data r),
                  stmt_columns = [], stmt_row = None, stmt_pending = None\<rparr> of
            (rc, db', stmt') \<Rightarrow>
              if rc \<noteq> SQLITE_DONE then (Inl execute_failed, db') else (Inr (), db'))"
    and "addRecord db r =
         (case store_row db tb (map (\<lambda>c. field_for (data r) (col_name c)) (tbl_columns tb)) of
            None \<Rightarrow> (Inl execute_failed, db)
          | Some db' \<Rightarrow> (Inr (), db'))"
proof -
  let ?s = "Insert (table r) (map fst (data r)) (length (data r))"
  let ?stmt = "\<lparr>stmt_sql = ?s, stmt_params = replicate (length (data r)) SqlNull,
                stmt_columns = [], stmt_row = None, stmt_pending = None\<rparr>"
  let ?bound = "\<lparr>stmt_sql = ?s, stmt_params = map (bound_value \<circ> snd) (data r),
                 stmt_columns = [], stmt_row = None, stmt_pending = None\<rparr>"
  have "parse_sql (c_str (addRecord_query r)) = Some ?s"
    using parse_addRecord_query[OF assms(1,2,3)] by simp
  moreover have "statement_ok db ?s"
    using assms(4,5) by simp
  ultimately have prep: "sqlite3_prepare_v2 db (c_str (addRecord_query r)) = Some ?stmt"
    by (simp add: prepare_parsed)
  have bind: "bindFields ?stmt 1 (data r) = Inr ?bound"
    using bindFields_all[of ?stmt "data r"] by simp
  show first: "addRecord db r =
         (case sqlite3_step db ?bound of
            (rc, db', stmt') \<Rightarrow>
              if rc \<noteq> SQLITE_DONE then (Inl execute_failed, db') else (Inr (), db'))"
    by (simp add: addRecord_def prep bind)
  have "insert_row db (table r) (map fst (data r)) (map (bound_value \<circ> snd) (data r)) =
        store_row db tb (map (\<lambda>c. field_for (data r) (col_name c)) (tbl_columns tb))"
    using assms(4) by (simp add: insert_row_def offered_bound)
  then show "addRecord db r =
         (case store_row db tb (map (\<lambda>c. field_for (data r) (col_name c)) (tbl_columns tb)) of
            None \<Rightarrow> (Inl execute_failed, db)
          | Some db' \<Rightarrow> (Inr (), db'))"
    unfolding first by (simp add: step_insert split: option.split)
qed

section \<open>The properties\<close>

text \<open>
  C1, as amended. For every table name that is a plain name, \<open>removeRecord\<close> with an empty
  filter writes the text \<open>DELETE FROM <table> WHERE \<close>, a \<open>WHERE\<close> with no condition
  after it. The text is not a statement: preparing it fails, \<open>removeRecord\<close> throws the
  "Failed to prepare statement" error, and no row is removed.
\<close>

theorem removeRecord_empty_filter_fails:
  assumes "sql_name tbl"
  shows "removeRecord_query tbl [] = ''DELETE FROM '' @ tbl @ '' WHERE '' \<and>
         removeRecord db tbl [] = (Inl prepare_failed, db)"
  using parse_empty_filter(1)[OF assms]
  by (simp add: removeRecord_query_def removeRecord_def prepare_unparsed)

theorem removeRecord_empty_filter_fails_witness:
  "sql_name ''tasks'' \<and>
   removeRecord_query ''tasks'' [] = ''DELETE FROM '' @ ''tasks'' @ '' WHERE '' \<and>
   removeRecord example_db ''tasks'' [] = (Inl prepare_failed, example_db)"
proof -
  have n: "sql_name ''tasks''" by code_simp
  from removeRecord_empty_filter_fails[OF n, of example_db] n show ?thesis by blast
qed

text \<open>
  C1 as stated fails: on the table \<open>tasks\<close> holding three rows, \<open>removeRecord\<close> with an
  empty filter throws, and the three rows are still there.
\<close>

theorem removeRecord_empty_filter_counterexample:
  "removeRecord_query ''tasks'' [] = ''DELETE FROM tasks WHERE '' \<and>
   fst (removeRecord example_db ''tasks'' []) = Inl prepare_failed \<and>
   map_option (length \<circ> tbl_rows)
     (find_table (snd (removeRecord example_db ''tasks'' [])) ''tasks'') = Some 3"
  by code_simp

text \<open>
  C2, as amended. The rank is taken over the column named \<open>id\<close>, whatever the primary
  key of the table is. Let a table with a plain name other than \<open>PseudoIDs\<close> have a column
  \<open>id\<close>. For an ordinal \<open>k\<close> below 1 or above the number of rows, \<open>getRecordByPseudoId\<close>
  throws "Record not found". For every ordinal it decodes the first row whose \<open>id\<close>
  equals the \<open>k\<close>-th smallest \<open>id\<close> of the table, and throws "Record not found" when
  there is no such row. When no row holds \<open>NULL\<close> as its \<open>id\<close> and no two rows hold equal
  \<open>id\<close>s, then for \<open>k\<close> from 1 to the number of rows it decodes the row at the position
  \<open>i\<close> that holds the \<open>k\<close>-th smallest \<open>id\<close>: it returns the record \<open>records[i]\<close> of the
  records that \<open>getAllRecords\<close> returns, and throws "Unsupported column type" when that
  row holds a value of another type. Where the rows of the table are in the ascending
  order of \<open>id\<close>, the position \<open>i\<close> is \<open>k-1\<close>.
\<close>

theorem getRecordByPseudoId_rank:
  assumes "sql_name tbl" and "\<not> same_name tbl ''PseudoIDs''"
    and "find_table db tbl = Some tb" and "has_column tb ''id''"
  shows "(sint k < 1 \<or> int (length (tbl_rows tb)) < sint k \<longrightarrow>
            getRecordByPseudoId db tbl k = (Inl record_not_found, db)) \<and>
         (case filter (id_equals tb (kth_id tb (sint k))) (tbl_rows tb) of
            [] \<Rightarrow> getRecordByPseudoId db tbl k = (Inl record_not_found, db)
          | row # rest \<Rightarrow>
              snd (getRecordByPseudoId db tbl k) = db \<and>
              (distinct (column_names tb) \<longrightarrow>
                 decoded_row tbl (column_names tb) row (fst (getRecordByPseudoId db tbl k)))) \<and>
         (1 \<le> sint k \<and> sint k \<le> int (length (tbl_rows tb)) \<and> id_is_unique tb \<longrightarrow>
            (\<exists>i<length (tbl_rows tb).
               id_values tb ! i = kth_id tb (sint k) \<and>
               (id_in_row_order tb \<longrightarrow> i = nat (sint k) - 1) \<and>
               (\<forall>records. getAllRecords db tbl = (Inr records, db) \<longrightarrow>
                  length records = length (tbl_rows tb) \<and>
                  getRecordByPseudoId db tbl k = (Inr (records ! i), db)) \<and>
               snd (getRecordByPseudoId db tbl k) = db \<and>
               (distinct (column_names tb) \<longrightarrow>
                  decoded_row tbl (column_names tb) (tbl_rows tb ! i)
                    (fst (getRecordByPseudoId db tbl k)))))"
proof -
  let ?rows = "tbl_rows tb" and ?names = "column_names tb"
  from assms(4) obtain j where j: "column_index (tbl_columns tb) ''id'' = Some j"
    by (auto simp: has_column_def)
  have result: "getRecordByPseudoId db tbl k =
      (first_record tbl ?names (filter (id_equals tb (kth_id tb (sint k))) ?rows), db)"
    by (rule getRecordByPseudoId_ranked[OF assms(1,3,4,2)])
  have outside: "getRecordByPseudoId db tbl k = (Inl record_not_found, db)"
    if "sint k < 1 \<or> int (length ?rows) < sint k"
  proof -
    from that have "kth_id tb (sint k) = SqlNull"
      by (auto simp: kth_id_def)
    then show ?thesis
      by (simp add: result first_record_def)
  qed
  have general: "case filter (id_equals tb (kth_id tb (sint k))) ?rows of
            [] \<Rightarrow> getRecordByPseudoId db tbl k = (Inl record_not_found, db)
          | row # rest \<Rightarrow>
              snd (getRecordByPseudoId db tbl k) = db \<and>
              (distinct ?names \<longrightarrow>
                 decoded_row tbl ?names row (fst (getRecordByPseudoId db tbl k)))"
  proof (cases "filter (id_equals tb (kth_id tb (sint k))) ?rows")
    case Nil
    then show ?thesis by (simp add: result first_record_def)
  next
    case (Cons row rest)
    then show ?thesis
      using decoded_row_first[of ?names tbl row rest] by (simp add: result)
  qed
  have inside: "\<exists>i<length ?rows.
               id_values tb ! i = kth_id tb (sint k) \<and>
               (id_in_row_order tb \<longrightarrow> i = nat (sint k) - 1) \<and>
               (\<forall>records. getAllRecords db tbl = (Inr records, db) \<longrightarrow>
                  length records = length ?rows \<and>
                  getRecordByPseudoId db tbl k = (Inr (records ! i), db)) \<and>
               snd (getRecordByPseudoId db tbl k) = db \<and>
               (distinct ?names \<longrightarrow>
                  decoded_row tbl ?names (?rows ! i) (fst (getRecordByPseudoId db tbl k)))"
    if k: "1 \<le> sint k \<and> sint k \<le> int (length ?rows) \<and> id_is_unique tb"
  proof -
    from k obtain i where i: "i < length ?rows" and at: "id_values tb ! i = kth_id tb (sint k)"
      using kth_id_row[OF j, of "sint k"] by blast
    from k have unique: "id_is_unique tb" by simp
    have rows: "filter (id_equals tb (kth_id tb (sint k))) ?rows = [?rows ! i]"
      by (rule ranked_rows_unique(1)[OF unique i at])
    have res: "getRecordByPseudoId db tbl k = (first_record tbl ?names [?rows ! i], db)"
      by (simp add: result rows)
    have "i = nat (sint k) - 1" if "id_in_row_order tb"
      using kth_id_in_order[OF unique that i at] k by simp
    moreover have "length records = length ?rows \<and>
                   getRecordByPseudoId db tbl k = (Inr (records ! i), db)"
      if "getAllRecords db tbl = (Inr records, db)" for records
      using getAllRecords_nth[OF assms(1,3) that] i by (simp add: res)
    moreover have "decoded_row tbl ?names (?rows ! i) (fst (getRecordByPseudoId db tbl k))"
      if "distinct ?names"
      using decoded_row_first[OF that, of tbl "?rows ! i" "[]"] by (simp add: res)
    ultimately show ?thesis
      using i at res by auto
  qed
  from outside general inside show ?thesis by blast
qed

theorem getRecordByPseudoId_rank_witness:
  "sql_name ''notes'' \<and> \<not> same_name ''notes'' ''PseudoIDs'' \<and>
   find_table notes_db ''notes'' = Some notes_table \<and> has_column notes_table ''id'' \<and>
   id_is_unique notes_table \<and> \<not> id_in_row_order notes_table \<and>
   id_values notes_table = [SqlInteger 20, SqlInteger 10] \<and>
   getAllRecords notes_db ''notes'' = (Inr notes_records, notes_db) \<and>
   getRecordByPseudoId notes_db ''notes'' 1 = (Inr (notes_records ! 1), notes_db) \<and>
   getRecordByPseudoId notes_db ''notes'' 3 = (Inl record_not_found, notes_db) \<and>
   getRecordByPseudoId notes_db ''notes'' 0 = (Inl record_not_found, notes_db) \<and>
   distinct (column_names notes_table) \<and>
   decoded_row ''notes'' (column_names notes_table)
     [SqlInteger 2, SqlInteger 10, SqlText ''second'']
     (fst (getRecordByPseudoId notes_db ''notes'' 1)) \<and>
   sql_name ''tasks'' \<and> \<not> same_name ''tasks'' ''PseudoIDs'' \<and>
   find_table example_db ''tasks'' = Some tasks_table \<and> has_column tasks_table ''id'' \<and>
   id_is_unique tasks_table \<and> id_in_row_order tasks_table \<and>
   getAllRecords example_db ''tasks'' = (Inr tasks_records, example_db) \<and>
   getRecordByPseudoId example_db ''tasks'' 2 = (Inr (tasks_records ! 1), example_db)"
proof -
  have h1: "sql_name ''notes''" by code_simp
  have h2: "\<not> same_name ''notes'' ''PseudoIDs''" by code_simp
  have h3: "find_table notes_db ''notes'' = Some notes_table" by code_simp
  have h4: "has_column notes_table ''id''" by code_simp
  have h5: "id_is_unique notes_table" by code_simp
  have h6: "\<not> id_in_row_order notes_table" by code_simp
  have h7: "getAllRecords notes_db ''notes'' = (Inr notes_records, notes_db)" by code_simp
  have two: "length (tbl_rows notes_table) = 2" by code_simp
  have ids: "id_values notes_table = [SqlInteger 20, SqlInteger 10]" by code_simp
  have kth: "kth_id notes_table 1 = SqlInteger 10" by code_simp
  note rank = getRecordByPseudoId_rank[OF h1 h2 h3 h4]
  from rank[of 1] h5 two obtain i where "i < 2"
    and "id_values notes_table ! i = kth_id notes_table 1"
    and all: "\<forall>records. getAllRecords notes_db ''notes'' = (Inr records, notes_db) \<longrightarrow>
            length records = length (tbl_rows notes_table) \<and>
            getRecordByPseudoId notes_db ''notes'' 1 = (Inr (records ! i), notes_db)"
    by auto
  then have "i = 1"
    by (cases i) (simp_all add: ids kth)
  with all h7 have first: "getRecordByPseudoId notes_db ''notes'' 1 = (Inr (notes_records ! 1), notes_db)"
    by simp
  have third: "getRecordByPseudoId notes_db ''notes'' 3 = (Inl record_not_found, notes_db)"
    using rank[of 3] two by simp
  have none: "getRecordByPseudoId notes_db ''notes'' 0 = (Inl record_not_found, notes_db)"
    using rank[of 0] by simp
  have h8: "distinct (column_names notes_table)" by code_simp
  have ranked: "filter (id_equals notes_table (kth_id notes_table 1)) (tbl_rows notes_table) =
                [ [SqlInteger 2, SqlInteger 10, SqlText ''second''] ]" by code_simp
  have decoded: "decoded_row ''notes'' (column_names notes_table)
     [SqlInteger 2, SqlInteger 10, SqlText ''second'']
     (fst (getRecordByPseudoId notes_db ''notes'' 1))"
    using rank[of 1] h8 by (simp add: ranked)
  have t1: "sql_name ''tasks''" by code_simp
  have t2: "\<not> same_name ''tasks'' ''PseudoIDs''" by code_simp
  have t3: "find_table example_db ''tasks'' = Some tasks_table" by code_simp
  have t4: "has_column tasks_table ''id''" by code_simp
  have t5: "id_is_unique tasks_table" by code_simp
  have t6: "id_in_row_order tasks_table" by code_simp
  have t7: "getAllRecords example_db ''tasks'' = (Inr tasks_records, example_db)" by code_simp
  have three: "length (tbl_rows tasks_table) = 3" by code_simp
  from getRecordByPseudoId_rank[OF t1 t2 t3 t4, of 2] t5 t6 t7 three
  have second: "getRecordByPseudoId example_db ''tasks'' 2 = (Inr (tasks_records ! 1), example_db)"
    by auto
  from h1 h2 h3 h4 h5 h6 h7 h8 ids first third none decoded t1 t2 t3 t4 t5 t6 t7 second
  show ?thesis by blast
qed

text \<open>
  C2 as stated fails on a table whose primary key is not the column \<open>id\<close>. The table
  \<open>notes\<close> has the primary key \<open>k\<close>; \<open>getAllRecords\<close> returns its rows in the order of \<open>k\<close>,
  and \<open>getRecordByPseudoId\<close> with ordinal 1 returns the second of them, the row with the
  smallest \<open>id\<close>.
\<close>

theorem getRecordByPseudoId_counterexample:
  "getAllRecords notes_db ''notes'' =
     (Inr [\<lparr>data = [(''k'', FieldInt 1), (''id'', FieldInt 20), (''body'', FieldString ''first'')],
            table = ''notes''\<rparr>,
           \<lparr>data = [(''k'', FieldInt 2), (''id'', FieldInt 10), (''body'', FieldString ''second'')],
            table = ''notes''\<rparr>], notes_db) \<and>
   getRecordByPseudoId notes_db ''notes'' 1 =
     (Inr \<lparr>data = [(''k'', FieldInt 2), (''id'', FieldInt 10), (''body'', FieldString ''second'')],
           table = ''notes''\<rparr>, notes_db)"
  by code_simp

text \<open>
  C3. Let the table and the keys of a record be plain names, the table exist and the
  keys name columns of it. Then \<open>addRecord\<close> returns what the execution of this \<open>INSERT\<close>
  statement returns: its column list is the list of the keys in the order of iteration,
  and its parameter at every position \<open>i\<close> is the value of the \<open>Field\<close> that the record
  maps to the \<open>i\<close>-th column name. So the statement offers to every column of the table
  the value of the field that the record maps to the name of the column, and nothing to
  a column that no key names; an error of the execution is the "Failed to execute
  statement" error.
\<close>

theorem addRecord_bind_order:
  assumes "sql_name (table r)" and "list_all sql_name (map fst (data r))"
    and "distinct (map fst (data r))" and "data r \<noteq> []"
    and "find_table db (table r) = Some tb" and "list_all (has_column tb) (map fst (data r))"
  shows "(\<exists>stmt. stmt_sql stmt = Insert (table r) (map fst (data r)) (length (data r)) \<and>
            length (stmt_params stmt) = length (data r) \<and>
            (\<forall>i<length (data r).
               map_option bound_value (map_of (data r) (map fst (data r) ! i)) =
               Some (stmt_params stmt ! i)) \<and>
            addRecord db r =
              (case sqlite3_step db stmt of
                 (rc, db', stmt') \<Rightarrow>
                   if rc \<noteq> SQLITE_DONE then (Inl execute_failed, db') else (Inr (), db'))) \<and>
         addRecord db r =
           (case store_row db tb (map (\<lambda>c. field_for (data r) (col_name c)) (tbl_columns tb)) of
              None \<Rightarrow> (Inl execute_failed, db)
            | Some db' \<Rightarrow> (Inr (), db'))"
proof -
  let ?bound = "\<lparr>stmt_sql = Insert (table r) (map fst (data r)) (length (data r)),
                 stmt_params = map (bound_value \<circ> snd) (data r),
                 stmt_columns = [], stmt_row = None, stmt_pending = None\<rparr>"
  have "map_option bound_value (map_of (data r) (map fst (data r) ! i)) =
        Some (stmt_params ?bound ! i)" if "i < length (data r)" for i
  proof -
    from that have "(fst (data r ! i), snd (data r ! i)) \<in> set (data r)" by simp
    with assms(3) have "map_of (data r) (fst (data r ! i)) = Some (snd (data r ! i))"
      by (rule map_of_is_SomeI)
    with that show ?thesis by simp
  qed
  moreover have "stmt_sql ?bound = Insert (table r) (map fst (data r)) (length (data r))"
    and "length (stmt_params ?bound) = length (data r)"
    by simp_all
  ultimately have "\<exists>stmt. stmt_sql stmt = Insert (table r) (map fst (data r)) (length (data r)) \<and>
            length (stmt_params stmt) = length (data r) \<and>
            (\<forall>i<length (data r).
               map_option bound_value (map_of (data r) (map fst (data r) ! i)) =
               Some (stmt_params stmt ! i)) \<and>
            addRecord db r =
              (case sqlite3_step db stmt of
                 (rc, db', stmt') \<Rightarrow>
                   if rc \<noteq> SQLITE_DONE then (Inl execute_failed, db') else (Inr (), db'))"
    using addRecord_result(1)[OF assms(1,2,4,5,6)] by blast
  with addRecord_result(2)[OF assms(1,2,4,5,6)] show ?thesis by simp
qed

theorem addRecord_bind_order_witness:
  "sql_name (table log_record) \<and> list_all sql_name (map fst (data log_record)) \<and>
   distinct (map fst (data log_record)) \<and> data log_record \<noteq> [] \<and>
   find_table log_db (table log_record) = Some log_table \<and>
   list_all (has_column log_table) (map fst (data log_record)) \<and>
   map col_name (tbl_columns log_table) = [''id'', ''entry''] \<and>
   map fst (data log_record) = [''entry'', ''id''] \<and>
   addRecord log_db log_record =
     (Inr (), [log_table\<lparr>tbl_rows := tbl_rows log_table @ [ [SqlInteger 3, SqlText ''d''] ]\<rparr>])"
proof -
  have h1: "sql_name (table log_record)" by code_simp
  have h2: "list_all sql_name (map fst (data log_record))" by code_simp
  have h3: "distinct (map fst (data log_record))" by code_simp
  have h4: "data log_record \<noteq> []" by code_simp
  have h5: "find_table log_db (table log_record) = Some log_table" by code_simp
  have h6: "list_all (has_column log_table) (map fst (data log_record))" by code_simp
  have cols: "map col_name (tbl_columns log_table) = [''id'', ''entry'']" by code_simp
  have keys: "map fst (data log_record) = [''entry'', ''id'']" by code_simp
  have stored: "store_row log_db log_table
                  (map (\<lambda>c. field_for (data log_record) (col_name c)) (tbl_columns log_table)) =
      Some [log_table\<lparr>tbl_rows := tbl_rows log_table @ [ [SqlInteger 3, SqlText ''d''] ]\<rparr>]"
    by code_simp
  from addRecord_bind_order[OF h1 h2 h3 h4 h5 h6]
  have "addRecord log_db log_record =
     (Inr (), [log_table\<lparr>tbl_rows := tbl_rows log_table @ [ [SqlInteger 3, SqlText ''d''] ]\<rparr>])"
    by (simp add: stored)
  with h1 h2 h3 h4 h5 h6 cols keys show ?thesis by blast
qed

text \<open>
  C4. When a call of \<open>createTable\<close> with a non-empty column list has succeeded, a second
  call with the same table name and columns succeeds too and leaves the database as it
  is: the table, with whatever rows it holds, and every other table. For a plain table
  name the same holds in every later database in which the table exists, whatever rows
  it has come to hold in between.
\<close>

theorem createTable_twice:
  assumes "columns \<noteq> []" and "createTable db tbl columns = (Inr (), db1)"
  shows "createTable db1 tbl columns = (Inr (), db1) \<and>
         (sql_name tbl \<longrightarrow>
            (\<forall>db2. find_table db2 tbl \<noteq> None \<longrightarrow> createTable db2 tbl columns = (Inr (), db2)))"
proof -
  let ?text = "c_str (createTable_query tbl columns)"
  from assms obtain stmt where prep: "sqlite3_prepare_v2 db ?text = Some stmt"
    by (auto simp: createTable_def split: option.splits)
  with assms obtain stmt' where step: "sqlite3_step db stmt = (SQLITE_DONE, db1, stmt')"
    by (auto simp: createTable_def split: prod.splits if_splits)
  from prep have parsed: "parse_sql ?text = Some (stmt_sql stmt)"
    and ok: "statement_ok db (stmt_sql stmt)"
    by (simp_all add: prepare_sql)
  from parsed have "is_create_if_absent (stmt_sql stmt)"
    by (rule parse_createTable_query)
  then obtain n cols where sql: "stmt_sql stmt = Create True n cols"
    by (cases "stmt_sql stmt") auto
  from ok sql have name: "object_name_ok n" by simp
  from create_step[OF sql step] obtain tb where "find_table db1 n = Some tb"
    by auto
  with parsed sql name have again: "createTable db1 tbl columns = (Inr (), db1)"
    by (intro create_existing[OF assms(1)]) simp_all
  have later: "createTable db2 tbl columns = (Inr (), db2)"
    if "sql_name tbl" and "find_table db2 tbl \<noteq> None" for db2
  proof -
    from parse_createTable_name[OF that(1) parsed] sql have "n = tbl" by simp
    moreover from that(2) obtain tb2 where "find_table db2 tbl = Some tb2" by auto
    ultimately show ?thesis
      using parsed sql name by (intro create_existing[OF assms(1)]) simp_all
  qed
  from again later show ?thesis by blast
qed

theorem createTable_twice_witness:
  "tasks_columns \<noteq> [] \<and>
   createTable [] ''tasks'' tasks_columns =
     (Inr (), [\<lparr>tbl_name = ''tasks'', tbl_columns = tasks_schema, tbl_rows = []\<rparr>]) \<and>
   createTable [\<lparr>tbl_name = ''tasks'', tbl_columns = tasks_schema, tbl_rows = []\<rparr>]
     ''tasks'' tasks_columns =
     (Inr (), [\<lparr>tbl_name = ''tasks'', tbl_columns = tasks_schema, tbl_rows = []\<rparr>]) \<and>
   sql_name ''tasks'' \<and> find_table example_db ''tasks'' \<noteq> None \<and>
   createTable example_db ''tasks'' tasks_columns = (Inr (), example_db)"
proof -
  have h1: "tasks_columns \<noteq> []" by code_simp
  have h2: "createTable [] ''tasks'' tasks_columns =
     (Inr (), [\<lparr>tbl_name = ''tasks'', tbl_columns = tasks_schema, tbl_rows = []\<rparr>])"
    by code_simp
  have h3: "sql_name ''tasks''" by code_simp
  have h4: "find_table example_db ''tasks'' \<noteq> None" by code_simp
  from createTable_twice[OF h1 h2] h1 h2 h3 h4 show ?thesis by blast
qed

text \<open>
  C5, as amended. Let a table with a plain name other than \<open>PseudoIDs\<close> have a column
  \<open>id\<close>. For every ordinal \<open>k\<close>, \<open>removeRecordByPseudoId\<close> returns without an error and
  removes the rows whose \<open>id\<close> equals the \<open>k\<close>-th smallest \<open>id\<close> of the table, and no other
  row of any table. For \<open>k\<close> below 1 or above the number of rows it removes nothing. When
  no row holds \<open>NULL\<close> as its \<open>id\<close> and no two rows hold equal \<open>id\<close>s, then for \<open>k\<close> from 1
  to the number of rows it removes one row, the row at the position \<open>i\<close> that holds the
  \<open>k\<close>-th smallest \<open>id\<close>; where the rows of the table are in the ascending order of \<open>id\<close>,
  the position \<open>i\<close> is \<open>k-1\<close>.
\<close>

theorem removeRecordByPseudoId_one_row:
  assumes "sql_name tbl" and "\<not> same_name tbl ''PseudoIDs''"
    and "find_table db tbl = Some tb" and "has_column tb ''id''"
  shows "(sint k < 1 \<or> int (length (tbl_rows tb)) < sint k \<longrightarrow>
            removeRecordByPseudoId db tbl k = (Inr (), db)) \<and>
         (\<exists>db'. removeRecordByPseudoId db tbl k = (Inr (), db') \<and>
            find_table db' tbl =
              Some (tb\<lparr>tbl_rows := filter (\<lambda>row. \<not> id_equals tb (kth_id tb (sint k)) row)
                                      (tbl_rows tb)\<rparr>) \<and>
            (\<forall>t. \<not> same_name t tbl \<longrightarrow> find_table db' t = find_table db t)) \<and>
         (1 \<le> sint k \<and> sint k \<le> int (length (tbl_rows tb)) \<and> id_is_unique tb \<longrightarrow>
            (\<exists>i<length (tbl_rows tb).
               id_values tb ! i = kth_id tb (sint k) \<and>
               (id_in_row_order tb \<longrightarrow> i = nat (sint k) - 1) \<and>
               (\<exists>db'. removeRecordByPseudoId db tbl k = (Inr (), db') \<and>
                  find_table db' tbl =
                    Some (tb\<lparr>tbl_rows := take i (tbl_rows tb) @ drop (Suc i) (tbl_rows tb)\<rparr>) \<and>
                  (\<forall>t. \<not> same_name t tbl \<longrightarrow> find_table db' t = find_table db t))))"
proof -
  let ?rows = "tbl_rows tb"
  let ?P = "id_equals tb (kth_id tb (sint k))"
  from assms(4) obtain j where j: "column_index (tbl_columns tb) ''id'' = Some j"
    by (auto simp: has_column_def)
  have result: "removeRecordByPseudoId db tbl k = (Inr (), delete_rows ?P tbl db)"
    by (rule removeRecordByPseudoId_ranked[OF assms(1,3,4,2)])
  have same: "find_table (delete_rows ?P tbl db) tbl =
      Some (tb\<lparr>tbl_rows := filter (\<lambda>row. \<not> ?P row) ?rows\<rparr>)"
    by (rule delete_rows_find_same[OF assms(3)])
  have other: "\<forall>t. \<not> same_name t tbl \<longrightarrow> find_table (delete_rows ?P tbl db) t = find_table db t"
    by (simp add: delete_rows_find_other)
  have outside: "removeRecordByPseudoId db tbl k = (Inr (), db)"
    if "sint k < 1 \<or> int (length ?rows) < sint k"
  proof -
    from that have "kth_id tb (sint k) = SqlNull"
      by (auto simp: kth_id_def)
    then have "filter (\<lambda>row. \<not> ?P row) ?rows = ?rows"
      by simp
    with assms(3) have "delete_rows ?P tbl db = db"
      by (rule delete_rows_none)
    with result show ?thesis by simp
  qed
  have general: "\<exists>db'. removeRecordByPseudoId db tbl k = (Inr (), db') \<and>
            find_table db' tbl = Some (tb\<lparr>tbl_rows := filter (\<lambda>row. \<not> ?P row) ?rows\<rparr>) \<and>
            (\<forall>t. \<not> same_name t tbl \<longrightarrow> find_table db' t = find_table db t)"
    using result same other by blast
  have inside: "\<exists>i<length ?rows.
               id_values tb ! i = kth_id tb (sint k) \<and>
               (id_in_row_order tb \<longrightarrow> i = nat (sint k) - 1) \<and>
               (\<exists>db'. removeRecordByPseudoId db tbl k = (Inr (), db') \<and>
                  find_table db' tbl = Some (tb\<lparr>tbl_rows := take i ?rows @ drop (Suc i) ?rows\<rparr>) \<and>
                  (\<forall>t. \<not> same_name t tbl \<longrightarrow> find_table db' t = find_table db t))"
    if k: "1 \<le> sint k \<and> sint k \<le> int (length ?rows) \<and> id_is_unique tb"
  proof -
    from k obtain i where i: "i < length ?rows" and at: "id_values tb ! i = kth_id tb (sint k)"
      using kth_id_row[OF j, of "sint k"] by blast
    from k have unique: "id_is_unique tb" by simp
    have rows: "filter (\<lambda>row. \<not> ?P row) ?rows = take i ?rows @ drop (Suc i) ?rows"
      by (rule ranked_rows_unique(2)[OF unique i at])
    have "i = nat (sint k) - 1" if "id_in_row_order tb"
      using kth_id_in_order[OF unique that i at] k by simp
    moreover have "\<exists>db'. removeRecordByPseudoId db tbl k = (Inr (), db') \<and>
                  find_table db' tbl = Some (tb\<lparr>tbl_rows := take i ?rows @ drop (Suc i) ?rows\<rparr>) \<and>
                  (\<forall>t. \<not> same_name t tbl \<longrightarrow> find_table db' t = find_table db t)"
      using result same other by (simp add: rows)
    ultimately show ?thesis
      using i at by blast
  qed
  from outside general inside show ?thesis by blast
qed

theorem removeRecordByPseudoId_one_row_witness:
  "sql_name ''notes'' \<and> \<not> same_name ''notes'' ''PseudoIDs'' \<and>
   find_table notes_db ''notes'' = Some notes_table \<and> has_column notes_table ''id'' \<and>
   id_is_unique notes_table \<and> id_values notes_table = [SqlInteger 20, SqlInteger 10] \<and>
   (\<exists>db'. removeRecordByPseudoId notes_db ''notes'' 1 = (Inr (), db') \<and>
          find_table db' ''notes'' =
            Some (notes_table\<lparr>tbl_rows := [ [SqlInteger 1, SqlInteger 20, SqlText ''first''] ]\<rparr>)) \<and>
   removeRecordByPseudoId notes_db ''notes'' 3 = (Inr (), notes_db) \<and>
   removeRecordByPseudoId notes_db ''notes'' 0 = (Inr (), notes_db) \<and>
   sql_name ''tasks'' \<and> \<not> same_name ''tasks'' ''PseudoIDs'' \<and>
   find_table example_db ''tasks'' = Some tasks_table \<and> has_column tasks_table ''id'' \<and>
   id_is_unique tasks_table \<and> id_in_row_order tasks_table \<and>
   (\<exists>db'. removeRecordByPseudoId example_db ''tasks'' 2 = (Inr (), db') \<and>
          find_table db' ''tasks'' =
            Some (tasks_table\<lparr>tbl_rows := take 1 (tbl_rows tasks_table) @
                                          drop 2 (tbl_rows tasks_table)\<rparr>))"
proof -
  have h1: "sql_name ''notes''" by code_simp
  have h2: "\<not> same_name ''notes'' ''PseudoIDs''" by code_simp
  have h3: "find_table notes_db ''notes'' = Some notes_table" by code_simp
  have h4: "has_column notes_table ''id''" by code_simp
  have h5: "id_is_unique notes_table" by code_simp
  have two: "length (tbl_rows notes_table) = 2" by code_simp
  have ids: "id_values notes_table = [SqlInteger 20, SqlInteger 10]" by code_simp
  have kth: "kth_id notes_table 1 = SqlInteger 10" by code_simp
  have rows: "take 1 (tbl_rows notes_table) @ drop (Suc 1) (tbl_rows notes_table) =
              [ [SqlInteger 1, SqlInteger 20, SqlText ''first''] ]" by code_simp
  note rank = removeRecordByPseudoId_one_row[OF h1 h2 h3 h4]
  from rank[of 1] h5 two obtain i db' where "i < 2"
    and "id_values notes_table ! i = kth_id notes_table 1"
    and rm: "removeRecordByPseudoId notes_db ''notes'' 1 = (Inr (), db')"
       "find_table db' ''notes'' =
          Some (notes_table\<lparr>tbl_rows := take i (tbl_rows notes_table) @
                                        drop (Suc i) (tbl_rows notes_table)\<rparr>)"
    by auto
  then have "i = 1"
    by (cases i) (simp_all add: ids kth)
  with rm rows have first: "\<exists>db'. removeRecordByPseudoId notes_db ''notes'' 1 = (Inr (), db') \<and>
          find_table db' ''notes'' =
            Some (notes_table\<lparr>tbl_rows := [ [SqlInteger 1, SqlInteger 20, SqlText ''first''] ]\<rparr>)"
    by auto
  have third: "removeRecordByPseudoId notes_db ''notes'' 3 = (Inr (), notes_db)"
    using rank[of 3] two by simp
  have none: "removeRecordByPseudoId notes_db ''notes'' 0 = (Inr (), notes_db)"
    using rank[of 0] by simp
  have t1: "sql_name ''tasks''" by code_simp
  have t2: "\<not> same_name ''tasks'' ''PseudoIDs''" by code_simp
  have t3: "find_table example_db ''tasks'' = Some tasks_table" by code_simp
  have t4: "has_column tasks_table ''id''" by code_simp
  have t5: "id_is_unique tasks_table" by code_simp
  have t6: "id_in_row_order tasks_table" by code_simp
  have three: "length (tbl_rows tasks_table) = 3" by code_simp
  from removeRecordByPseudoId_one_row[OF t1 t2 t3 t4, of 2] t5 t6 three
  have second: "\<exists>db'. removeRecordByPseudoId example_db ''tasks'' 2 = (Inr (), db') \<and>
          find_table db' ''tasks'' =
            Some (tasks_table\<lparr>tbl_rows := take 1 (tbl_rows tasks_table) @
                                          drop 2 (tbl_rows tasks_table)\<rparr>)"
    by (auto simp: numeral_2_eq_2)
  from h1 h2 h3 h4 h5 ids first third none t1 t2 t3 t4 t5 t6 second
  show ?thesis by blast
qed

text \<open>
  C5 as stated fails on a table whose \<open>id\<close> is not a key. In the table \<open>log\<close> two of the
  three rows have the \<open>id\<close> 1, and \<open>removeRecordByPseudoId\<close> with ordinal 1 removes both.
\<close>

theorem removeRecordByPseudoId_counterexample:
  "map (length \<circ> tbl_rows) log_db = [3] \<and>
   removeRecordByPseudoId log_db ''log'' 1 =
     (Inr (), [\<lparr>tbl_name = ''log'',
                 tbl_columns = [stored_column ''id'' ''INTEGER'', stored_column ''entry'' ''TEXT''],
                 tbl_rows = [ [SqlInteger 2, SqlText ''c''] ]\<rparr>])"
  by code_simp

text \<open>
  C6. The decoding loop makes of a row with one column the \<open>int\<close> field of an integer
  value (its low 32 bits), the \<open>double\<close> field of a floating point value, the string field
  of a text and the empty string for \<open>NULL\<close>, and it throws "Unsupported column type" for
  a value of any other type. The three operations decode their rows in this way, column
  by column. Let a table have a plain name and distinct column names. \<open>getRecord\<close> (with
  a filter that is not empty, on plain names of columns of the table) throws "Record not
  found" when no row matches the filter, and otherwise decodes the first matching row:
  it returns the record of that row, or throws "Unsupported column type" when that row
  holds a value of another type. \<open>getRecordByPseudoId\<close> (when the table has a column \<open>id\<close>
  and is not named \<open>PseudoIDs\<close>) does the same with the rows whose \<open>id\<close> is the \<open>k\<close>-th
  smallest. \<open>getAllRecords\<close> returns the records of all rows, in their order, or throws
  "Unsupported column type" for a row that holds a value of another type.
\<close>

theorem decoding_policy:
  assumes "sql_name tbl" and "find_table db tbl = Some tb" and "distinct (column_names tb)"
  shows "decodeRow (stmt\<lparr>stmt_columns := [c], stmt_row := Some [SqlInteger n]\<rparr>) =
           Inr [(c, FieldInt (word_of_int n))] \<and>
         decodeRow (stmt\<lparr>stmt_columns := [c], stmt_row := Some [SqlFloat d]\<rparr>) =
           Inr [(c, FieldDouble d)] \<and>
         decodeRow (stmt\<lparr>stmt_columns := [c], stmt_row := Some [SqlText s]\<rparr>) =
           Inr [(c, FieldString (c_str s))] \<and>
         decodeRow (stmt\<lparr>stmt_columns := [c], stmt_row := Some [SqlNull]\<rparr>) =
           Inr [(c, FieldString [])] \<and>
         decodeRow (stmt\<lparr>stmt_columns := [c], stmt_row := Some [SqlBlob b]\<rparr>) =
           Inl (unsupported_column c) \<and>
         (dat \<noteq> [] \<and> list_all sql_name (map fst dat) \<and> list_all (has_column tb) (map fst dat) \<longrightarrow>
            (case filter (row_matches tb dat) (tbl_rows tb) of
               [] \<Rightarrow> fst (getRecord db tbl dat) = Inl record_not_found
             | row # rest \<Rightarrow>
                 decoded_row tbl (column_names tb) row (fst (getRecord db tbl dat)))) \<and>
         (has_column tb ''id'' \<and> \<not> same_name tbl ''PseudoIDs'' \<longrightarrow>
            (case filter (id_equals tb (kth_id tb (sint k))) (tbl_rows tb) of
               [] \<Rightarrow> fst (getRecordByPseudoId db tbl k) = Inl record_not_found
             | row # rest \<Rightarrow>
                 decoded_row tbl (column_names tb) row (fst (getRecordByPseudoId db tbl k)))) \<and>
         (case fst (getAllRecords db tbl) of
            Inr records \<Rightarrow>
              list_all2 (\<lambda>row rec. decoded_row tbl (column_names tb) row (Inr rec))
                (tbl_rows tb) records
          | Inl e \<Rightarrow> list_ex (\<lambda>row. decoded_row tbl (column_names tb) row (Inl e)) (tbl_rows tb))"
proof -
  let ?names = "column_names tb"
  have one: "decodeRow (stmt\<lparr>stmt_columns := [c], stmt_row := Some [v]\<rparr>) =
             (case decode_value v of None \<Rightarrow> Inl (unsupported_column c) | Some f \<Rightarrow> Inr [(c, f)])"
    for v
    by (cases v)
       (simp_all add: decodeRow_def sqlite3_column_count_def sqlite3_column_name_def
          sqlite3_column_type_def column_value_def nth_value_def sqlite3_column_int_def
          sqlite3_column_double_def sqlite3_column_text_def)
  have first: "case rows of
                 [] \<Rightarrow> first_record tbl ?names rows = Inl record_not_found
               | row # rest \<Rightarrow> decoded_row tbl ?names row (first_record tbl ?names rows)" for rows
  proof (cases rows)
    case Nil
    then show ?thesis by (simp add: first_record_def)
  next
    case (Cons row rest)
    then show ?thesis
      using decoded_row_first[OF assms(3), of tbl row rest] by simp
  qed
  have get: "case filter (row_matches tb dat) (tbl_rows tb) of
               [] \<Rightarrow> fst (getRecord db tbl dat) = Inl record_not_found
             | row # rest \<Rightarrow> decoded_row tbl ?names row (fst (getRecord db tbl dat))"
    if "dat \<noteq> [] \<and> list_all sql_name (map fst dat) \<and> list_all (has_column tb) (map fst dat)"
  proof -
    from that have r: "fst (getRecord db tbl dat) =
        first_record tbl ?names (filter (row_matches tb dat) (tbl_rows tb))"
      by (simp add: getRecord_result[OF assms(1,2)])
    show ?thesis
      unfolding r by (rule first)
  qed
  have pseudo: "case filter (id_equals tb (kth_id tb (sint k))) (tbl_rows tb) of
               [] \<Rightarrow> fst (getRecordByPseudoId db tbl k) = Inl record_not_found
             | row # rest \<Rightarrow> decoded_row tbl ?names row (fst (getRecordByPseudoId db tbl k))"
    if "has_column tb ''id'' \<and> \<not> same_name tbl ''PseudoIDs''"
  proof -
    from that have r: "fst (getRecordByPseudoId db tbl k) =
        first_record tbl ?names (filter (id_equals tb (kth_id tb (sint k))) (tbl_rows tb))"
      by (simp add: getRecordByPseudoId_ranked[OF assms(1,2)])
    show ?thesis
      unfolding r by (rule first)
  qed
  let ?xs = "map (record_of_row ?names) (tbl_rows tb)"
  have all: "case fst (getAllRecords db tbl) of
            Inr records \<Rightarrow>
              list_all2 (\<lambda>row rec. decoded_row tbl ?names row (Inr rec)) (tbl_rows tb) records
          | Inl e \<Rightarrow> list_ex (\<lambda>row. decoded_row tbl ?names row (Inl e)) (tbl_rows tb)"
  proof (cases "collect_records tbl ?xs []")
    case (Inl e)
    then have "Inl e \<in> set ?xs" by (rule collect_records_Inl)
    then obtain row where row: "row \<in> set (tbl_rows tb)" and "record_of_row ?names row = Inl e"
      by auto
    with decoded_row_record[OF assms(3), of tbl row] have "decoded_row tbl ?names row (Inl e)"
      by simp
    with row Inl show ?thesis
      by (auto simp: getAllRecords_result[OF assms(1,2)] list_ex_iff)
  next
    case (Inr records)
    then obtain ds where ds: "?xs = map Inr ds"
      and recs: "records = map (\<lambda>d. \<lparr>data = d, table = tbl\<rparr>) ds"
      using collect_records_Inr by fastforce
    from ds have len: "length ds = length (tbl_rows tb)" by (metis length_map)
    have "decoded_row tbl ?names (tbl_rows tb ! i) (Inr (records ! i))"
      if "i < length (tbl_rows tb)" for i
    proof -
      from ds that len have "record_of_row ?names (tbl_rows tb ! i) = Inr (ds ! i)"
        by (metis nth_map)
      with decoded_row_record[OF assms(3), of tbl "tbl_rows tb ! i"] recs that len
      show ?thesis by simp
    qed
    with len recs have "list_all2 (\<lambda>row rec. decoded_row tbl ?names row (Inr rec))
                          (tbl_rows tb) records"
      by (simp add: list_all2_conv_all_nth)
    with Inr show ?thesis
      by (simp add: getAllRecords_result[OF assms(1,2)])
  qed
  from get pseudo all show ?thesis by (simp add: one)
qed

theorem decoding_policy_witness:
  "sql_name ''files'' \<and> find_table files_db ''files'' = Some files_table \<and>
   distinct (column_names files_table) \<and>
   list_all sql_name (map fst [(''name'', FieldString ''logo'')]) \<and>
   list_all (has_column files_table) (map fst [(''name'', FieldString ''logo'')]) \<and>
   has_column files_table ''id'' \<and> \<not> same_name ''files'' ''PseudoIDs'' \<and>
   decoded_row ''files'' (column_names files_table)
     [SqlInteger 2, SqlText ''logo'', SqlBlob ''GIF89a'']
     (fst (getRecord files_db ''files'' [(''name'', FieldString ''logo'')])) \<and>
   fst (getRecord files_db ''files'' [(''name'', FieldString ''logo'')]) =
     Inl (unsupported_column ''body'') \<and>
   decoded_row ''files'' (column_names files_table)
     [SqlInteger 2, SqlText ''logo'', SqlBlob ''GIF89a'']
     (fst (getRecordByPseudoId files_db ''files'' 2)) \<and>
   fst (getRecordByPseudoId files_db ''files'' 2) = Inl (unsupported_column ''body'') \<and>
   decoded_row ''files'' (column_names files_table) [SqlInteger 1, SqlText ''readme'', SqlNull]
     (fst (getRecordByPseudoId files_db ''files'' 1)) \<and>
   fst (getRecordByPseudoId files_db ''files'' 1) =
     Inr \<lparr>data = [(''id'', FieldInt 1), (''name'', FieldString ''readme''),
                  (''body'', FieldString [])], table = ''files''\<rparr> \<and>
   fst (getRecordByPseudoId files_db ''files'' 3) = Inl record_not_found \<and>
   list_ex (\<lambda>row. decoded_row ''files'' (column_names files_table) row
                    (Inl (unsupported_column ''body'')))
     (tbl_rows files_table) \<and>
   fst (getAllRecords files_db ''files'') = Inl (unsupported_column ''body'')"
proof -
  let ?dat = "[(''name'', FieldString ''logo'')]"
  have h1: "sql_name ''files''" by code_simp
  have h2: "find_table files_db ''files'' = Some files_table" by code_simp
  have h3: "distinct (column_names files_table)" by code_simp
  have h4: "?dat \<noteq> [] \<and> list_all sql_name (map fst ?dat) \<and>
            list_all (has_column files_table) (map fst ?dat)" by code_simp
  have h5: "has_column files_table ''id'' \<and> \<not> same_name ''files'' ''PseudoIDs''" by code_simp
  have rows: "filter (row_matches files_table ?dat) (tbl_rows files_table) =
                [ [SqlInteger 2, SqlText ''logo'', SqlBlob ''GIF89a''] ]"
    "filter (id_equals files_table (kth_id files_table 2)) (tbl_rows files_table) =
                [ [SqlInteger 2, SqlText ''logo'', SqlBlob ''GIF89a''] ]"
    "filter (id_equals files_table (kth_id files_table 1)) (tbl_rows files_table) =
                [ [SqlInteger 1, SqlText ''readme'', SqlNull] ]"
    "filter (id_equals files_table (kth_id files_table 3)) (tbl_rows files_table) =
                []"
    by code_simp+
  have results: "fst (getRecord files_db ''files'' ?dat) = Inl (unsupported_column ''body'')"
    "fst (getRecordByPseudoId files_db ''files'' 2) = Inl (unsupported_column ''body'')"
    "fst (getRecordByPseudoId files_db ''files'' 1) =
       Inr \<lparr>data = [(''id'', FieldInt 1), (''name'', FieldString ''readme''),
                    (''body'', FieldString [])], table = ''files''\<rparr>"
    "fst (getAllRecords files_db ''files'') = Inl (unsupported_column ''body'')"
    by code_simp+
  note policy = decoding_policy[OF h1 h2 h3]
  have "decoded_row ''files'' (column_names files_table)
     [SqlInteger 2, SqlText ''logo'', SqlBlob ''GIF89a'']
     (fst (getRecord files_db ''files'' ?dat))"
    using policy[of _ _ _ _ _ _ ?dat] h4 by (simp add: rows)
  moreover have "decoded_row ''files'' (column_names files_table)
     [SqlInteger 2, SqlText ''logo'', SqlBlob ''GIF89a'']
     (fst (getRecordByPseudoId files_db ''files'' 2))"
    using policy[of _ _ _ _ _ _ _ 2] h5 by (simp add: rows)
  moreover have "decoded_row ''files'' (column_names files_table)
     [SqlInteger 1, SqlText ''readme'', SqlNull]
     (fst (getRecordByPseudoId files_db ''files'' 1))"
    using policy[of _ _ _ _ _ _ _ 1] h5 by (simp add: rows)
  moreover have "fst (getRecordByPseudoId files_db ''files'' 3) = Inl record_not_found"
    using policy[of _ _ _ _ _ _ _ 3] h5 by (simp add: rows)
  moreover have "list_ex (\<lambda>row. decoded_row ''files'' (column_names files_table) row
                    (Inl (unsupported_column ''body''))) (tbl_rows files_table)"
    using policy by (simp add: results)
  ultimately show ?thesis
    using h1 h2 h3 h4 h5 results by simp
qed

text \<open>
  C7, as amended. For every table with a plain name and distinct column names, and every
  filter that is not empty and whose keys are plain names of columns of the table:
  \<open>getRecord\<close> throws "Record not found" exactly when no row matches the filter;
  otherwise it decodes the first matching row, returning it as a record or throwing
  "Unsupported column type" when the row holds a value of another type. A row matches
  when, for every key of the filter, its value in that column equals the bound value as
  SQLite compares a column with a parameter. With the empty filter the text ends in
  \<open>WHERE\<close>, and \<open>getRecord\<close> fails to prepare it and leaves the database as it is.
\<close>

theorem getRecord_first_match:
  assumes "sql_name tbl" and "find_table db tbl = Some tb" and "distinct (column_names tb)"
    and "dat \<noteq> []" and "list_all sql_name (map fst dat)"
    and "list_all (has_column tb) (map fst dat)"
  shows "(fst (getRecord db tbl dat) = Inl record_not_found \<longleftrightarrow>
            filter (row_matches tb dat) (tbl_rows tb) = []) \<and>
         (filter (row_matches tb dat) (tbl_rows tb) \<noteq> [] \<longrightarrow>
            decoded_row tbl (column_names tb) (hd (filter (row_matches tb dat) (tbl_rows tb)))
              (fst (getRecord db tbl dat))) \<and>
         getRecord db tbl [] = (Inl prepare_failed, db)"
proof -
  let ?rows = "filter (row_matches tb dat) (tbl_rows tb)"
  have result: "fst (getRecord db tbl dat) = first_record tbl (column_names tb) ?rows"
    by (simp add: getRecord_result[OF assms(1,2,4,5,6)])
  have "decoded_row tbl (column_names tb) (hd ?rows) (first_record tbl (column_names tb) ?rows)"
    if "?rows \<noteq> []"
  proof -
    from that obtain row rest where "?rows = row # rest" by (cases ?rows) auto
    then show ?thesis
      using decoded_row_first[OF assms(3), of tbl row rest] by simp
  qed
  moreover have "getRecord db tbl [] = (Inl prepare_failed, db)"
    using parse_empty_filter(2)[OF assms(1)] by (simp add: getRecord_def prepare_unparsed)
  ultimately show ?thesis
    by (simp add: result first_record_not_found)
qed

theorem getRecord_first_match_witness:
  "sql_name ''tasks'' \<and> find_table example_db ''tasks'' = Some tasks_table \<and>
   distinct (column_names tasks_table) \<and>
   list_all sql_name (map fst [(''title'', FieldString ''Walk dog'')]) \<and>
   list_all (has_column tasks_table) (map fst [(''title'', FieldString ''Walk dog'')]) \<and>
   filter (row_matches tasks_table [(''title'', FieldString ''Walk dog'')]) (tbl_rows tasks_table) =
     [ [SqlInteger 4, SqlText ''Walk dog'', SqlText ''twice'', SqlText ''2024-05-01 09:30:00''] ] \<and>
   fst (getRecord example_db ''tasks'' [(''title'', FieldString ''Walk dog'')]) \<noteq>
     Inl record_not_found \<and>
   decoded_row ''tasks'' (column_names tasks_table)
     [SqlInteger 4, SqlText ''Walk dog'', SqlText ''twice'', SqlText ''2024-05-01 09:30:00'']
     (fst (getRecord example_db ''tasks'' [(''title'', FieldString ''Walk dog'')]))"
proof -
  let ?dat = "[(''title'', FieldString ''Walk dog'')]"
  have h1: "sql_name ''tasks''" by code_simp
  have h2: "find_table example_db ''tasks'' = Some tasks_table" by code_simp
  have h3: "distinct (column_names tasks_table)" by code_simp
  have h4: "?dat \<noteq> []" by simp
  have h5: "list_all sql_name (map fst ?dat)" by code_simp
  have h6: "list_all (has_column tasks_table) (map fst ?dat)" by code_simp
  have rows: "filter (row_matches tasks_table ?dat) (tbl_rows tasks_table) =
     [ [SqlInteger 4, SqlText ''Walk dog'', SqlText ''twice'', SqlText ''2024-05-01 09:30:00''] ]"
    by code_simp
  from getRecord_first_match[OF h1 h2 h3 h4 h5 h6] h1 h2 h3 h5 h6 rows
  show ?thesis by simp
qed

text \<open>
  C7 as stated fails for the empty filter. Every one of the three rows of \<open>tasks\<close>
  matches it, and \<open>getRecord\<close> returns none of them and does not report "not found": it
  fails to prepare its statement.
\<close>

theorem getRecord_empty_filter_counterexample:
  "getRecord_query ''tasks'' [] = ''SELECT * FROM tasks WHERE '' \<and>
   length (filter (row_matches tasks_table []) (tbl_rows tasks_table)) = 3 \<and>
   getRecord example_db ''tasks'' [] = (Inl prepare_failed, example_db)"
  by code_simp

text \<open>
  C8. With an empty column list \<open>createTable\<close> throws \<open>std::invalid_argument\<close> and leaves
  the database as it is, whatever the table name and the database are: it returns
  before it writes or prepares a statement.
\<close>

theorem createTable_no_columns:
  "createTable db tbl [] = (Inl invalid_argument, db)"
  by (simp add: createTable_def)

theorem createTable_no_columns_witness:
  "createTable example_db ''tasks'' [] = (Inl invalid_argument, example_db)"
  by (rule createTable_no_columns)

text \<open>
  C9. A \<open>Field\<close> holds an \<open>int\<close>, a \<open>double\<close> or a string, so the binding loop always
  takes one of its three bind calls and runs to its end: none of \<open>addRecord\<close>,
  \<open>removeRecord\<close> and \<open>getRecord\<close> throws the "unsupported field type" error, whatever
  the record, the table and the database are.
\<close>

theorem unsupported_field_unreachable:
  "(holds_int v \<or> holds_double v \<or> holds_string v)
   \<and> (\<exists>stmt'. bindFields stmt i dat = Inr stmt')
   \<and> fst (addRecord db r) \<noteq> Inl (unsupported_field k)
   \<and> fst (removeRecord db tbl dat) \<noteq> Inl (unsupported_field k)
   \<and> fst (getRecord db tbl dat) \<noteq> Inl (unsupported_field k)"
proof -
  have add: "fst (addRecord db r) \<noteq> Inl (unsupported_field k)"
  proof (cases "sqlite3_prepare_v2 db (c_str (addRecord_query r))")
    case None
    then show ?thesis by (simp add: addRecord_def)
  next
    case (Some s)
    obtain s' where "bindFields s 1 (data r) = Inr s'"
      using bindFields_returns by blast
    with Some show ?thesis
      by (simp add: addRecord_def split: prod.split)
  qed
  have remove: "fst (removeRecord db tbl dat) \<noteq> Inl (unsupported_field k)"
  proof (cases "sqlite3_prepare_v2 db (c_str (removeRecord_query tbl dat))")
    case None
    then show ?thesis by (simp add: removeRecord_def)
  next
    case (Some s)
    obtain s' where "bindFields s 1 dat = Inr s'"
      using bindFields_returns by blast
    with Some show ?thesis
      by (simp add: removeRecord_def split: prod.split)
  qed
  have get: "fst (getRecord db tbl dat) \<noteq> Inl (unsupported_field k)"
  proof (cases "sqlite3_prepare_v2 db (c_str (getRecord_query tbl dat))")
    case None
    then show ?thesis by (simp add: getRecord_def)
  next
    case (Some s)
    obtain s' where s': "bindFields s 1 dat = Inr s'"
      using bindFields_returns by blast
    have dec: "decodeColumns st is acc \<noteq> Inl (unsupported_field k)" for st "is" acc
      by (induction "is" arbitrary: acc) (auto simp: Let_def split: column_type.split)
    show ?thesis
      using Some s' dec
      by (auto simp: getRecord_def decodeRow_def split: prod.split sum.split)
  qed
  from holds_some_alternative bindFields_returns add remove get show ?thesis by blast
qed

theorem unsupported_field_unreachable_witness:
  "(holds_int (FieldDouble (6942 / 100)) \<or> holds_double (FieldDouble (6942 / 100)) \<or>
    holds_string (FieldDouble (6942 / 100)))
   \<and> (\<exists>stmt'. bindFields
                 \<lparr>stmt_sql = Insert ''tasks'' [''title'', ''description''] 2,
                  stmt_params = [SqlNull, SqlNull], stmt_columns = [], stmt_row = None,
                  stmt_pending = None\<rparr> 1 (data example_record) = Inr stmt')
   \<and> fst (addRecord example_db example_record) \<noteq> Inl (unsupported_field ''title'')
   \<and> fst (removeRecord example_db ''tasks'' (data example_record)) \<noteq> Inl (unsupported_field ''title'')
   \<and> fst (getRecord example_db ''tasks'' (data example_record)) \<noteq> Inl (unsupported_field ''title'')"
  by (rule unsupported_field_unreachable)



end
